theory Spec2Isabelle
  imports Main "HOL-Library.Sublist" "HOL-Library.AList"
begin

section \<open>Text\<close>

text \<open>
  A Python \<^verbatim>\<open>str\<close> is represented by the bytes of its UTF-8 encoding, as a \<open>string\<close>;
  \<^verbatim>\<open>bytes\<close> are a \<open>string\<close> too. The functions that classify characters (\<open>is_word\<close>
  for the class \<^verbatim>\<open>\w\<close> of the regular expressions, \<open>is_space\<close> for what
  \<^verbatim>\<open>str.strip()\<close> removes, \<open>lower_char\<close> for \<^verbatim>\<open>str.lower()\<close>) are those of
  Python on ASCII characters: letters, digits and underscore; the white space with codes
  9 to 13, 28 to 31 and 32. On other characters Python goes by the Unicode tables, which
  are not modelled (it also takes \<^verbatim>\<open>U+00A0\<close> for white space and \<^verbatim>\<open>U+00E9\<close> for a
  word character). Every statement below that depends on how the characters of a text are
  classified therefore assumes that the text is ASCII.
\<close>

definition ascii :: "string \<Rightarrow> bool" where
  "ascii s = list_all (\<lambda>c. (of_char c :: nat) < 128) s"

definition is_word :: "char \<Rightarrow> bool" where
  "is_word c =
     (let n = (of_char c :: nat)
      in (48 \<le> n \<and> n \<le> 57) \<or> (65 \<le> n \<and> n \<le> 90) \<or> n = 95 \<or> (97 \<le> n \<and> n \<le> 122))"

definition is_space :: "char \<Rightarrow> bool" where
  "is_space c =
     (let n = (of_char c :: nat)
      in (9 \<le> n \<and> n \<le> 13) \<or> (28 \<le> n \<and> n \<le> 32))"

definition strip :: "string \<Rightarrow> string" where
  "strip s = rev (dropWhile is_space (rev (dropWhile is_space s)))"

definition startswith :: "string \<Rightarrow> string \<Rightarrow> bool" where
  "startswith s p = prefix p s"

definition lower_char :: "char \<Rightarrow> char" where
  "lower_char c =
     (let n = (of_char c :: nat)
      in if 65 \<le> n \<and> n \<le> 90 then char_of (n + 32) else c)"

definition lower :: "string \<Rightarrow> string" where
  "lower s = map lower_char s"

text \<open>\<^verbatim>\<open>sep.join(xs)\<close>.\<close>

fun join :: "string \<Rightarrow> string list \<Rightarrow> string" where
  "join sep [] = []"
| "join sep [x] = x"
| "join sep (x # y # ys) = x @ sep @ join sep (y # ys)"

section \<open>Errors\<close>

text \<open>
  The exceptions that the modelled code can raise. \<open>JSONDecodeError\<close>, \<open>RecursionError\<close>
  and \<open>ValueError\<close> are what \<^verbatim>\<open>json.loads\<close> raises (the last two on brackets nested
  too deep and on an integer of too many digits; \<open>ValueError\<close> here is one that is not a
  \<^verbatim>\<open>JSONDecodeError\<close>); \<open>ValueError\<close> is also what \<^verbatim>\<open>readline\<close> raises on a line
  over its limit. The three \<^verbatim>\<open>raise Exception(...)\<close> of the subprocess provider are
  kept apart by constructor and carry what their message is formatted from. \<open>Raised\<close> is
  any other exception of an external collaborator (the API client, the subprocess
  machinery, the console), with its message.
\<close>

datatype py_error =
    JSONDecodeError
  | RecursionError
  | ValueError
  | UnicodeDecodeError
  | AttributeError
  | TypeError
  | IndexError
  | OutdatedExecutable
  | ExecutableNotFound string
  | ProcessExited int string
  | Raised string

section \<open>\<^verbatim>\<open>bytes.decode()\<close>\<close>

text \<open>
  The bytes that are well-formed UTF-8 (no overlong forms, no surrogates, nothing above
  \<^verbatim>\<open>U+10FFFF\<close>). Decoding them gives the text they encode, which is represented by the
  same bytes; decoding anything else raises.
\<close>

definition byte_in :: "nat \<Rightarrow> nat \<Rightarrow> char \<Rightarrow> bool" where
  "byte_in lo hi c = (lo \<le> (of_char c :: nat) \<and> (of_char c :: nat) \<le> hi)"

fun utf8_valid :: "string \<Rightarrow> bool" where
  "utf8_valid [] = True"
| "utf8_valid (a # s) =
     (if byte_in 0 127 a then utf8_valid s
      else if byte_in 194 223 a
      then (case s of
              b # s' \<Rightarrow> byte_in 128 191 b \<and> utf8_valid s'
            | _ \<Rightarrow> False)
      else if byte_in 224 239 a
      then (case s of
              b # c # s' \<Rightarrow>
                (if byte_in 224 224 a then byte_in 160 191 b
                 else if byte_in 237 237 a then byte_in 128 159 b
                 else byte_in 128 191 b) \<and>
                byte_in 128 191 c \<and> utf8_valid s'
            | _ \<Rightarrow> False)
      else if byte_in 240 244 a
      then (case s of
              b # c # d # s' \<Rightarrow>
                (if byte_in 240 240 a then byte_in 144 191 b
                 else if byte_in 244 244 a then byte_in 128 143 b
                 else byte_in 128 191 b) \<and>
                byte_in 128 191 c \<and> byte_in 128 191 d \<and> utf8_valid s'
            | _ \<Rightarrow> False)
      else False)"

definition decode :: "string \<Rightarrow> py_error + string" where
  "decode bytes = (if utf8_valid bytes then Inr bytes else Inl UnicodeDecodeError)"

section \<open>The tag parser: \<^verbatim>\<open>re.finditer(r'<(\w+)>(.*?)</\1>', text, re.DOTALL)\<close>\<close>

text \<open>
  \<open>closing_tag n\<close> is the text \<^verbatim>\<open></n>\<close> that the back reference must match.
\<close>

definition closing_tag :: "string \<Rightarrow> string" where
  "closing_tag n = CHR ''<'' # CHR ''/'' # n @ [CHR ''>'']"

text \<open>
  The lazy group \<^verbatim>\<open>(.*?)\<close> followed by the closing tag: the body runs up to the
  first place where the closing tag starts (with DOTALL every character is allowed in the
  body). The result is the body and the text after the closing tag; \<open>None\<close> when the
  closing tag does not occur.
\<close>

fun find_close :: "string \<Rightarrow> string \<Rightarrow> (string \<times> string) option" where
  "find_close c [] = (if c = [] then Some ([], []) else None)"
| "find_close c (x # xs) =
     (if prefix c (x # xs) then Some ([], drop (length c) (x # xs))
      else (case find_close c xs of
              None \<Rightarrow> None
            | Some (body, rest) \<Rightarrow> Some (x # body, rest)))"

text \<open>
  One attempt of the pattern at the start of the text. The greedy \<^verbatim>\<open>\w+\<close> takes the
  longest run of word characters; a shorter run would be followed by a word character,
  never by \<^verbatim>\<open>></\<close>, so backtracking finds nothing else. The result is group 1, group 2
  and the text after the match.
\<close>

definition match_tag :: "string \<Rightarrow> (string \<times> string \<times> string) option" where
  "match_tag s =
     (case s of
        [] \<Rightarrow> None
      | c # r \<Rightarrow>
          if c \<noteq> CHR ''<'' then None
          else (let n = takeWhile is_word r; r' = dropWhile is_word r
                in if n = [] then None
                   else (case r' of
                           [] \<Rightarrow> None
                         | d # body \<Rightarrow>
                             if d \<noteq> CHR ''>'' then None
                             else (case find_close (closing_tag n) body of
                                     None \<Rightarrow> None
                                   | Some (content, rest) \<Rightarrow> Some (n, content, rest)))))"

lemma find_close_length:
  "find_close c s = Some (b, r) \<Longrightarrow> length r \<le> length s"
proof (induction s arbitrary: b r)
  case Nil
  then show ?case by (simp split: if_splits)
next
  case (Cons x xs)
  then show ?case
    by (fastforce split: if_splits option.splits)
qed

lemma match_tag_length:
  assumes "match_tag s = Some (n, content, rest)"
  shows "length rest < length s"
proof -
  from assms obtain r body where s: "s = CHR ''<'' # r"
    and r: "dropWhile is_word r = CHR ''>'' # body"
    and fc: "find_close (closing_tag (takeWhile is_word r)) body = Some (content, rest)"
    by (auto simp: match_tag_def Let_def split: list.splits if_splits option.splits)
  have "length rest \<le> length body" using fc by (rule find_close_length)
  also have "length body < length (dropWhile is_word r)" using r by simp
  also have "\<dots> \<le> length r" by (rule length_dropWhile_le)
  finally show ?thesis using s by simp
qed

text \<open>
  \<^verbatim>\<open>re.finditer\<close>: the matches from left to right, not overlapping. Where the
  pattern does not match, the scan moves one character on; after a match (never empty)
  it resumes right behind it. Each match is given as (group 1, group 2).
\<close>

function finditer :: "string \<Rightarrow> (string \<times> string) list" where
  "finditer [] = []"
| "finditer (c # cs) =
     (case match_tag (c # cs) of
        None \<Rightarrow> finditer cs
      | Some (n, content, rest) \<Rightarrow> (n, content) # finditer rest)"
  by pat_completeness auto
termination
  by (relation "measure length") (auto dest: match_tag_length)

section \<open>Decoded JSON values and the library decoder\<close>

text \<open>
  What \<^verbatim>\<open>json.loads\<close> returns: \<^verbatim>\<open>None\<close>, a bool, a number, a string, a list or a
  dict (an association list; a key is looked up with \<open>map_of\<close>). A float is kept as
  its literal text.
\<close>

datatype json =
    JNull
  | JBool bool
  | JInt int
  | JFloat string
  | JStr string
  | JArr "json list"
  | JObj "(string \<times> json) list"

text \<open>
  The decoder \<^verbatim>\<open>json.loads\<close> belongs to the Python library, not to this repository. It
  is a parameter of every function that calls it: \<open>Inr v\<close> when the text decodes to \<open>v\<close>,
  \<open>Inl e\<close> when it raises \<open>e\<close>. The code catches \<open>JSONDecodeError\<close> and nothing else.
\<close>

type_synonym json_loads = "string \<Rightarrow> py_error + json"

section \<open>Stream fragments\<close>

text \<open>
  A parameter value is the trimmed text, or for \<^verbatim>\<open>options\<close> whatever the decoder
  returned.
\<close>

datatype pvalue = PStr string | PJson json

type_synonym params = "(string \<times> pvalue) list"

record tool_use =
  tu_name :: string
  tu_id :: string
  tu_input :: params

datatype fragment = Text string | ToolUse tool_use

fun is_text :: "fragment \<Rightarrow> bool" where
  "is_text (Text _) = True"
| "is_text (ToolUse _) = False"

fun is_tool_use :: "fragment \<Rightarrow> bool" where
  "is_tool_use (Text _) = False"
| "is_tool_use (ToolUse _) = True"

text \<open>
  What a call of \<^verbatim>\<open>stream_message\<close> does to its consumer: the fragments it yields, in
  order, and the exception that ends it, if any.
\<close>

type_synonym stream_result = "fragment list \<times> py_error option"

section \<open>Tool extraction (the same code in both providers)\<close>

definition valid_tools :: "string list" where
  "valid_tools =
     [''read_file'', ''write_to_file'', ''search_files'',
      ''attempt_completion'', ''plan_mode_respond'', ''ask_followup_question'']"

text \<open>
  The value stored for one parameter match (\<^verbatim>\<open>param_value\<close> is already trimmed), or
  the exception that leaves the loop. The \<^verbatim>\<open>try\<close> around \<^verbatim>\<open>json.loads\<close> catches
  \<^verbatim>\<open>json.JSONDecodeError\<close> and keeps the text; any other exception goes on.
\<close>

definition decode_param :: "json_loads \<Rightarrow> string \<Rightarrow> string \<Rightarrow> py_error + pvalue" where
  "decode_param loads param_name param_value =
     (if param_name = ''options'' \<and> startswith param_value ''[''
      then (case loads param_value of
              Inr v \<Rightarrow> Inr (PJson v)
            | Inl e \<Rightarrow> if e = JSONDecodeError then Inr (PStr param_value) else Inl e)
      else Inr (PStr param_value))"

text \<open>
  The inner loop over the parameter matches: \<^verbatim>\<open>params[param_name] = ...\<close> on a dict
  that keeps insertion order (a repeated name overwrites the value in place).
\<close>

fun parse_params :: "json_loads \<Rightarrow> (string \<times> string) list \<Rightarrow> params \<Rightarrow> py_error + params" where
  "parse_params loads [] ps = Inr ps"
| "parse_params loads ((param_name, raw) # ms) ps =
     (case decode_param loads param_name (strip raw) of
        Inl e \<Rightarrow> Inl e
      | Inr v \<Rightarrow> parse_params loads ms (AList.update param_name v ps))"

text \<open>
  The outer loop: a match whose name is not a valid tool is skipped (and its text is not
  scanned again); a valid one yields a \<^verbatim>\<open>tool_use\<close> fragment. The result is what
  is yielded, and the exception that ends the loop, if any.
\<close>

fun tool_uses_of :: "json_loads \<Rightarrow> (string \<times> string) list \<Rightarrow> tool_use list \<times> py_error option" where
  "tool_uses_of loads [] = ([], None)"
| "tool_uses_of loads ((tool_name, tool_content) # ms) =
     (if tool_name \<notin> set valid_tools then tool_uses_of loads ms
      else (case parse_params loads (finditer tool_content) [] of
              Inl e \<Rightarrow> ([], Some e)
            | Inr ps \<Rightarrow>
                (case tool_uses_of loads ms of
                   (tus, e) \<Rightarrow>
                     (\<lparr>tu_name = tool_name, tu_id = ''tool_'' @ tool_name, tu_input = ps\<rparr> # tus,
                      e))))"

definition parse_tool_uses :: "json_loads \<Rightarrow> string \<Rightarrow> tool_use list \<times> py_error option" where
  "parse_tool_uses loads full_text = tool_uses_of loads (finditer full_text)"

section \<open>The remote provider: \<^verbatim>\<open>OpenAIProvider.stream_message\<close>\<close>

text \<open>
  The API is external. One answer of it is: the exception of
  \<^verbatim>\<open>client.chat.completions.create\<close> if it raises; the chunks the stream delivers, each
  given as the \<^verbatim>\<open>delta.content\<close> of its choices (\<open>None\<close> for a missing content); and
  the exception that ends the stream after these chunks, if any.
\<close>

record api_answer =
  create_error :: "py_error option"
  stream_chunks :: "string option list list"
  stream_error :: "py_error option"

text \<open>
  The loop over the stream: \<^verbatim>\<open>chunk.choices[0]\<close> raises on an empty list; a content
  that is \<^verbatim>\<open>None\<close> or empty is skipped; every other one is yielded as a text fragment.
\<close>

fun openai_texts :: "string option list list \<Rightarrow> string list \<times> py_error option" where
  "openai_texts [] = ([], None)"
| "openai_texts (choices # chunks) =
     (case choices of
        [] \<Rightarrow> ([], Some IndexError)
      | content # _ \<Rightarrow>
          (case content of
             None \<Rightarrow> openai_texts chunks
           | Some text \<Rightarrow>
               if text = [] then openai_texts chunks
               else (case openai_texts chunks of (ts, e) \<Rightarrow> (text # ts, e))))"

definition openai_stream_message :: "json_loads \<Rightarrow> api_answer \<Rightarrow> stream_result" where
  "openai_stream_message loads api =
     (case create_error api of
        Some e \<Rightarrow> ([], Some e)
      | None \<Rightarrow>
          (case openai_texts (stream_chunks api) of
             (texts, Some e) \<Rightarrow> (map Text texts, Some e)
           | (texts, None) \<Rightarrow>
               (case stream_error api of
                  Some e \<Rightarrow> (map Text texts, Some e)
                | None \<Rightarrow>
                    (case parse_tool_uses loads (concat texts) of
                       (tus, e) \<Rightarrow> (map Text texts @ map ToolUse tus, e)))))"

section \<open>The subprocess provider: \<^verbatim>\<open>ClaudeCodeProvider.stream_message\<close>\<close>

text \<open>
  \<^verbatim>\<open>_parse_chunk\<close>: Python's \<^verbatim>\<open>None\<close> is \<open>JNull\<close>, returned when the decoder raises
  \<^verbatim>\<open>JSONDecodeError\<close> (and also when the text is the JSON \<^verbatim>\<open>null\<close>). \<open>Inl\<close> is any
  other exception of the decoder, which leaves the function.
\<close>

definition parse_chunk :: "json_loads \<Rightarrow> string \<Rightarrow> string \<Rightarrow> py_error + json" where
  "parse_chunk loads data partial_data =
     (let data' = (if partial_data \<noteq> [] then partial_data @ data else data)
      in case loads data' of
           Inr v \<Rightarrow> Inr v
         | Inl e \<Rightarrow> if e = JSONDecodeError then Inr JNull else Inl e)"

text \<open>
  One \<^verbatim>\<open>content_block\<close> of an assistant message: \<^verbatim>\<open>.get\<close> needs a dict, and
  \<^verbatim>\<open>full_text += text\<close> needs a string. \<open>Inr None\<close> is a block that is skipped.
\<close>

fun block_text :: "json \<Rightarrow> py_error + string option" where
  "block_text (JObj kv) =
     (if map_of kv ''type'' = Some (JStr ''text'')
      then (case map_of kv ''text'' of
              None \<Rightarrow> Inr (Some [])
            | Some (JStr t) \<Rightarrow> Inr (Some t)
            | Some _ \<Rightarrow> Inl TypeError)
      else Inr None)"
| "block_text _ = Inl AttributeError"

fun block_texts :: "json list \<Rightarrow> string list \<times> py_error option" where
  "block_texts [] = ([], None)"
| "block_texts (b # bs) =
     (case block_text b of
        Inl e \<Rightarrow> ([], Some e)
      | Inr None \<Rightarrow> block_texts bs
      | Inr (Some t) \<Rightarrow> (case block_texts bs of (ts, e) \<Rightarrow> (t # ts, e)))"

text \<open>What a \<^verbatim>\<open>for\<close> loop iterates over: a list, the characters of a string, the keys of a dict.\<close>

fun py_iter :: "json \<Rightarrow> py_error + json list" where
  "py_iter (JArr xs) = Inr xs"
| "py_iter (JStr s) = Inr (map (\<lambda>c. JStr [c]) s)"
| "py_iter (JObj kv) = Inr (map (\<lambda>p. JStr (fst p)) kv)"
| "py_iter _ = Inl TypeError"

text \<open>The texts that one decoded chunk makes the generator yield.\<close>

fun chunk_texts :: "json \<Rightarrow> string list \<times> py_error option" where
  "chunk_texts (JStr s) = ([s], None)"
| "chunk_texts (JObj kv) =
     (if map_of kv ''type'' = Some (JStr ''assistant'') \<and> ''message'' \<in> fst ` set kv
      then (case map_of kv ''message'' of
              Some (JObj m) \<Rightarrow>
                (case py_iter (case map_of m ''content'' of None \<Rightarrow> JArr [] | Some c \<Rightarrow> c) of
                   Inl e \<Rightarrow> ([], Some e)
                 | Inr blocks \<Rightarrow> block_texts blocks)
            | _ \<Rightarrow> ([], Some AttributeError))
      else ([], None))"
| "chunk_texts _ = ([], None)"

text \<open>
  \<^verbatim>\<open>process.stdout.readline()\<close> reads with the default limit of asyncio, 64 KiB: it
  raises \<^verbatim>\<open>ValueError\<close> when the line, without its newline, is longer.
\<close>

definition readline_limit :: nat where
  "readline_limit = 65536"

definition line_content :: "string \<Rightarrow> string" where
  "line_content line = (if line \<noteq> [] \<and> last line = CHR 0x0A then butlast line else line)"

text \<open>
  The loop over the output of the child. The output is given as the bytes that the
  successive calls of \<^verbatim>\<open>readline\<close> find: each line with its newline, the last one
  possibly without; the end of the list, or an empty element, is the end of the output.
  The loop returns the chunks that were decoded, in order, the texts yielded, and the
  exception that ended the loop, if any.
\<close>

fun read_stdout :: "json_loads \<Rightarrow> string list \<Rightarrow> string \<Rightarrow> json list \<times> string list \<times> py_error option" where
  "read_stdout loads [] partial_data = ([], [], None)"
| "read_stdout loads (line # lines) partial_data =
     (if readline_limit < length (line_content line) then ([], [], Some ValueError)
      else if line = [] then ([], [], None)
      else (case decode line of
              Inl e \<Rightarrow> ([], [], Some e)
            | Inr text \<Rightarrow>
                (let line_str = strip text
                 in if line_str = [] then read_stdout loads lines partial_data
                    else (case parse_chunk loads line_str partial_data of
                            Inl e \<Rightarrow> ([], [], Some e)
                          | Inr chunk \<Rightarrow>
                              if chunk = JNull
                              then read_stdout loads lines (partial_data @ line_str)
                              else (case chunk_texts chunk of
                                      (ts, Some e) \<Rightarrow> ([chunk], ts, Some e)
                                    | (ts, None) \<Rightarrow>
                                        (case read_stdout loads lines [] of
                                           (cs, ts', e) \<Rightarrow> (chunk # cs, ts @ ts', e)))))))"

text \<open>
  The child process is external: the exception raised before anything is read (temporary
  file, spawn, writing the messages), its standard output, its exit code and the bytes of
  its standard error.
\<close>

record process_run =
  spawn_error :: "py_error option"
  stdout_lines :: "string list"
  returncode :: int
  stderr_output :: string

text \<open>The check of the exit code after \<^verbatim>\<open>process.wait()\<close>.\<close>

definition exit_check :: "string \<Rightarrow> process_run \<Rightarrow> py_error option" where
  "exit_check claude_path run =
     (if returncode run \<noteq> 0
      then (case decode (stderr_output run) of
              Inl e \<Rightarrow> Some e
            | Inr text \<Rightarrow>
                (let error_msg = strip text
                 in if sublist (''unknown option '' @ [CHR 0x27] @ ''--system-prompt-file'' @ [CHR 0x27])
                         error_msg
                    then Some OutdatedExecutable
                    else if sublist ''ENOENT'' error_msg then Some (ExecutableNotFound claude_path)
                    else if error_msg \<noteq> [] then Some (ProcessExited (returncode run) error_msg)
                    else None))
      else None)"

definition claude_stream_message :: "json_loads \<Rightarrow> string \<Rightarrow> process_run \<Rightarrow> stream_result" where
  "claude_stream_message loads claude_path run =
     (case spawn_error run of
        Some e \<Rightarrow> ([], Some e)
      | None \<Rightarrow>
          (case read_stdout loads (stdout_lines run) [] of
             (chunks, texts, Some e) \<Rightarrow> (map Text texts, Some e)
           | (chunks, texts, None) \<Rightarrow>
               (case exit_check claude_path run of
                  Some e \<Rightarrow> (map Text texts, Some e)
                | None \<Rightarrow>
                    (case parse_tool_uses loads (concat texts) of
                       (tus, e) \<Rightarrow> (map Text texts @ map ToolUse tus, e)))))"

section \<open>The environment of the turn loops\<close>

datatype mode = PLAN | ACT

datatype role = User | Assistant

type_synonym turn = "role \<times> string"

text \<open>A tool result: \<^verbatim>\<open>tool_use_id\<close> and \<^verbatim>\<open>content\<close>.\<close>

type_synonym tool_result = "string \<times> string"

text \<open>What is sent to the UI: \<^verbatim>\<open>type\<close> and \<^verbatim>\<open>content\<close> (a text, or the dict of a tool event).\<close>

datatype ui_content = UiStr string | UiTool string params | UiResult string string

type_synonym ui_message = "string \<times> ui_content"

text \<open>
  Everything outside the loops is a function of an explicit world \<open>'w\<close>, returned updated:
  the directory listing and the clock of \<^verbatim>\<open>build_context\<close>, the provider behind
  \<^verbatim>\<open>AIClient\<close>, the registered tool functions, the console and the websocket. An
  exception of a collaborator is \<open>Inl\<close> (or \<open>Some\<close>) of its message \<^verbatim>\<open>str(e)\<close>; the
  provider ends a stream with a \<open>py_error\<close>. The exceptions are those that derive from
  \<^verbatim>\<open>Exception\<close>; an interrupt or a cancellation of the whole program is outside the
  model, and so is what is printed on the console.
\<close>

record 'w env =
  env_listdir :: "string \<Rightarrow> 'w \<Rightarrow> (string + string list) \<times> 'w"
  env_now :: "'w \<Rightarrow> string \<times> 'w"
  env_stream :: "turn list \<Rightarrow> string option \<Rightarrow> mode \<Rightarrow> 'w \<Rightarrow> stream_result \<times> 'w"
  env_tool :: "string \<Rightarrow> string \<Rightarrow> params \<Rightarrow> 'w \<Rightarrow> (string + string) \<times> 'w"
  env_input :: "'w \<Rightarrow> (string + string) \<times> 'w"
  env_send_json :: "ui_message \<Rightarrow> 'w \<Rightarrow> string option \<times> 'w"

text \<open>
  The loops keep a trace that the source does not have: one event for each provider
  call (with the working directory and mode that reach the provider), each call of a registered tool
  function, each console prompt and each message offered to the websocket (with whether
  the send succeeded).
\<close>

datatype event =
    ProviderCall "string option" mode
  | Dispatch string params
  | Prompted
  | UiEmit string bool

definition nl :: string where
  "nl = [CHR 0x0A]"

text \<open>
  \<^verbatim>\<open>AIClient.stream_message(conversation_history, working_dir=None, mode="ACT")\<close>: an
  argument that the caller leaves out is \<open>None\<close> here and takes its default.
\<close>

definition ai_client_stream_message ::
  "'w env \<Rightarrow> turn list \<Rightarrow> string option \<Rightarrow> mode option \<Rightarrow> 'w
     \<Rightarrow> (stream_result \<times> 'w) \<times> event" where
  "ai_client_stream_message env conversation working_dir mode_arg w =
     (let m = (case mode_arg of None \<Rightarrow> ACT | Some m' \<Rightarrow> m')
      in (env_stream env conversation working_dir m w, ProviderCall working_dir m))"

text \<open>The text of the tool results that becomes the next user content.\<close>

definition fold_results :: "tool_result list \<Rightarrow> string" where
  "fold_results rs = join (nl @ nl) (map (\<lambda>r. ''['' @ fst r @ ''] Result: '' @ snd r) rs)"

text \<open>The body of \<^verbatim>\<open>build_context\<close> once the directory has been listed.\<close>

definition context_text :: "string \<Rightarrow> string list option \<Rightarrow> string \<Rightarrow> string" where
  "context_text dir files now =
     ''<environment_details>'' @ nl @
     join nl ([''# Working Directory'' @ nl @ dir] @
              (case files of
                 None \<Rightarrow> []
               | Some fs \<Rightarrow> [nl @ ''# Files'' @ nl @ join nl (take 20 fs)]) @
              [nl @ ''# Time'' @ nl @ now]) @
     nl @ ''</environment_details>''"

section \<open>\<^verbatim>\<open>Task\<close> (task.py): the loop behind the websocket\<close>

record 'w task =
  conversation_history :: "turn list"
  abort :: bool
  config_cwd :: string
  world :: 'w
  trace :: "event list"

definition task_tools :: "string list" where
  "task_tools = [''read_file'', ''write_to_file'', ''search_files'', ''attempt_completion'']"

text \<open>
  \<^verbatim>\<open>send_to_ui\<close>: the first component is the exception that leaves the function. The
  bare \<^verbatim>\<open>except: pass\<close> is the second branch.
\<close>

definition send_to_ui :: "'w env \<Rightarrow> string \<Rightarrow> ui_content \<Rightarrow> 'w task \<Rightarrow> string option \<times> 'w task" where
  "send_to_ui env message_type content s =
     (case env_send_json env (message_type, content) (world s) of
        (None, w) \<Rightarrow> (None, s\<lparr>world := w, trace := trace s @ [UiEmit message_type True]\<rparr>)
      | (Some e, w) \<Rightarrow> (None, s\<lparr>world := w, trace := trace s @ [UiEmit message_type False]\<rparr>))"

text \<open>
  \<^verbatim>\<open>execute_tool\<close>: \<open>Inl\<close> is an exception that leaves the function, \<open>Inr\<close> the string
  it returns. The second \<^verbatim>\<open>send_to_ui\<close> stands inside the \<^verbatim>\<open>try\<close>.
\<close>

definition execute_tool :: "'w env \<Rightarrow> tool_use \<Rightarrow> 'w task \<Rightarrow> (string + string) \<times> 'w task" where
  "execute_tool env tool_block s =
     (let tool_name = tu_name tool_block; tool_params = tu_input tool_block
      in case send_to_ui env ''tool'' (UiTool tool_name tool_params) s of
           (Some e, s1) \<Rightarrow> (Inl e, s1)
         | (None, s1) \<Rightarrow>
             if tool_name \<in> set task_tools
             then (case env_tool env tool_name (config_cwd s1) tool_params (world s1) of
                     (Inl e, w) \<Rightarrow>
                       (Inr (''Error: '' @ e),
                        s1\<lparr>world := w, trace := trace s1 @ [Dispatch tool_name tool_params]\<rparr>)
                   | (Inr result, w) \<Rightarrow>
                       (case send_to_ui env ''tool_result'' (UiResult tool_name result)
                               (s1\<lparr>world := w, trace := trace s1 @ [Dispatch tool_name tool_params]\<rparr>) of
                          (Some e, s2) \<Rightarrow> (Inr (''Error: '' @ e), s2)
                        | (None, s2) \<Rightarrow> (Inr result, s2)))
             else (Inr (''Unknown tool: '' @ tool_name), s1))"

text \<open>
  The \<^verbatim>\<open>async for\<close> over the fragments, with \<^verbatim>\<open>assistant_message\<close> and
  \<^verbatim>\<open>tool_results\<close> as accumulators.
\<close>

fun consume ::
  "'w env \<Rightarrow> fragment list \<Rightarrow> string \<Rightarrow> tool_result list \<Rightarrow> 'w task
     \<Rightarrow> (string + string \<times> tool_result list) \<times> 'w task" where
  "consume env [] assistant_message tool_results s = (Inr (assistant_message, tool_results), s)"
| "consume env (Text text # fs) assistant_message tool_results s =
     (case send_to_ui env ''text'' (UiStr text) s of
        (Some e, s1) \<Rightarrow> (Inl e, s1)
      | (None, s1) \<Rightarrow> consume env fs (assistant_message @ text) tool_results s1)"
| "consume env (ToolUse chunk # fs) assistant_message tool_results s =
     (case execute_tool env chunk s of
        (Inl e, s1) \<Rightarrow> (Inl e, s1)
      | (Inr result, s1) \<Rightarrow>
          consume env fs assistant_message (tool_results @ [(tu_id chunk, result)]) s1)"

text \<open>\<^verbatim>\<open>Task.build_context\<close>: an exception of \<^verbatim>\<open>os.listdir\<close> is not caught.\<close>

definition task_build_context :: "'w env \<Rightarrow> 'w task \<Rightarrow> (string + string) \<times> 'w task" where
  "task_build_context env s =
     (case env_listdir env (config_cwd s) (world s) of
        (Inl e, w) \<Rightarrow> (Inl e, s\<lparr>world := w\<rparr>)
      | (Inr files, w) \<Rightarrow>
          (case env_now env w of
             (now, w') \<Rightarrow> (Inr (context_text (config_cwd s) (Some files) now), s\<lparr>world := w'\<rparr>)))"

definition task_nudge :: string where
  "task_nudge = ''Please use a tool to complete the task, or call attempt_completion.''"

text \<open>
  The first half of a pass of \<^verbatim>\<open>while not self.abort\<close>: the context is built, the
  user turn is appended and the provider is called (without working directory and mode).
  \<open>Inl\<close> is the exception of \<^verbatim>\<open>build_context\<close>.
\<close>

definition task_request :: "'w env \<Rightarrow> string \<Rightarrow> 'w task \<Rightarrow> (string + stream_result) \<times> 'w task" where
  "task_request env user_content s =
     (case task_build_context env s of
        (Inl e, s1) \<Rightarrow> (Inl e, s1)
      | (Inr context, s1) \<Rightarrow>
          (let s2 = s1\<lparr>conversation_history :=
                        conversation_history s1 @ [(User, user_content @ nl @ nl @ context)]\<rparr>
           in case ai_client_stream_message env (conversation_history s2) None None (world s2) of
                ((answer, w), call) \<Rightarrow>
                  (Inr answer, s2\<lparr>world := w, trace := trace s2 @ [call]\<rparr>)))"

text \<open>
  One pass of the body: it ends with the next user content, or with an exception that
  leaves \<^verbatim>\<open>task_loop\<close>. An exception of the stream comes after the fragments that
  were yielded before it.
\<close>

datatype 'w task_step = Continue string "'w task" | Crash py_error "'w task"

definition task_iteration :: "'w env \<Rightarrow> string \<Rightarrow> 'w task \<Rightarrow> 'w task_step" where
  "task_iteration env user_content s =
     (case task_request env user_content s of
        (Inl e, s3) \<Rightarrow> Crash (Raised e) s3
      | (Inr (frags, err), s3) \<Rightarrow>
          (case consume env frags [] [] s3 of
             (Inl e, s4) \<Rightarrow> Crash (Raised e) s4
           | (Inr (assistant_message, tool_results), s4) \<Rightarrow>
               (case err of
                  Some e \<Rightarrow> Crash e s4
                | None \<Rightarrow>
                    (let s5 = s4\<lparr>conversation_history :=
                                  conversation_history s4 @ [(Assistant, assistant_message)]\<rparr>
                     in if tool_results \<noteq> [] then Continue (fold_results tool_results) s5
                        else Continue task_nudge s5))))"

text \<open>
  \<^verbatim>\<open>task_loop\<close>. The loop has no bound, so the model counts the passes it may still make:
  \<open>OutOfFuel\<close> is a loop that is still running, with the user content and state of its
  next pass.
\<close>

datatype 'w task_outcome =
    Stopped "'w task"
  | Crashed py_error "'w task"
  | OutOfFuel string "'w task"

fun task_loop :: "'w env \<Rightarrow> nat \<Rightarrow> string \<Rightarrow> 'w task \<Rightarrow> 'w task_outcome" where
  "task_loop env 0 user_content s = (if abort s then Stopped s else OutOfFuel user_content s)"
| "task_loop env (Suc n) user_content s =
     (if abort s then Stopped s
      else (case task_iteration env user_content s of
              Continue user_content' s' \<Rightarrow> task_loop env n user_content' s'
            | Crash e s' \<Rightarrow> Crashed e s'))"

text \<open>\<^verbatim>\<open>Task.start\<close>.\<close>

definition task_start :: "'w env \<Rightarrow> nat \<Rightarrow> string \<Rightarrow> 'w task \<Rightarrow> 'w task_outcome" where
  "task_start env n user_message s =
     (case send_to_ui env ''status'' (UiStr ''Task started'') s of
        (Some e, s1) \<Rightarrow> Crashed (Raised e) s1
      | (None, s1) \<Rightarrow> task_loop env n (''<task>'' @ nl @ user_message @ nl @ ''</task>'') s1)"

fun task_final :: "'w task_outcome \<Rightarrow> 'w task" where
  "task_final (Stopped s) = s"
| "task_final (Crashed e s) = s"
| "task_final (OutOfFuel u s) = s"

section \<open>\<^verbatim>\<open>SimpleAgent\<close> (test_agent.py): the loop on the console\<close>

record 'w agent =
  agent_history :: "turn list"
  mode :: mode
  working_dir :: string
  agent_world :: 'w
  agent_trace :: "event list"

text \<open>\<^verbatim>\<open>SimpleAgent.__init__\<close>.\<close>

definition new_agent :: "string \<Rightarrow> 'w \<Rightarrow> 'w agent" where
  "new_agent dir w =
     \<lparr>agent_history = [], mode = PLAN, working_dir = dir, agent_world = w, agent_trace = []\<rparr>"

definition agent_tools :: "string list" where
  "agent_tools = [''read_file'', ''write_to_file'', ''search_files'', ''attempt_completion'']"

definition immediate_tools :: "string list" where
  "immediate_tools = [''attempt_completion'', ''ask_followup_question'', ''plan_mode_respond'']"

definition plan_only_tools :: "string list" where
  "plan_only_tools = [''read_file'', ''search_files'', ''plan_mode_respond'', ''ask_followup_question'']"

definition act_only_tools :: "string list" where
  "act_only_tools = [''write_to_file'', ''attempt_completion'']"

text \<open>The mode check of the loop: \<^verbatim>\<open>self.mode == "PLAN" and tool_name in act_only_tools\<close>.\<close>

definition mode_rejects :: "mode \<Rightarrow> string \<Rightarrow> bool" where
  "mode_rejects m tool_name = (m = PLAN \<and> tool_name \<in> set act_only_tools)"

text \<open>The mode policy as the specification names it: a call is allowed when the check lets it pass.\<close>

definition allowed :: "mode \<Rightarrow> string \<Rightarrow> bool" where
  "allowed m tool_name = (\<not> mode_rejects m tool_name)"

definition rejection :: "string \<Rightarrow> string" where
  "rejection tool_name =
     ''Error: '' @ tool_name @
     '' is not available in PLAN mode. Use plan_mode_respond to present your plan first.''"

text \<open>\<^verbatim>\<open>input()\<close>: the line read, or the exception it raises (at the end of the input).\<close>

definition agent_input :: "'w env \<Rightarrow> 'w agent \<Rightarrow> (string + string) \<times> 'w agent" where
  "agent_input env s =
     (case env_input env (agent_world s) of
        (r, w) \<Rightarrow> (r, s\<lparr>agent_world := w, agent_trace := agent_trace s @ [Prompted]\<rparr>))"

text \<open>
  How one pass of \<^verbatim>\<open>for tool_use in tool_uses\<close> ends: \<open>Next\<close> goes on with the next
  invocation (with the results so far), \<open>Break\<close> is the \<^verbatim>\<open>break\<close> on feedback, \<open>Return\<close>
  the \<^verbatim>\<open>return\<close> after a completion, \<open>Raise\<close> an exception of \<^verbatim>\<open>input()\<close>, which
  nothing catches.
\<close>

datatype body_end = Next "tool_result list" | Break string | Return string | Raise string

text \<open>The body from the mode check on.\<close>

definition check_and_execute ::
  "'w env \<Rightarrow> tool_use \<Rightarrow> tool_result list \<Rightarrow> 'w agent \<Rightarrow> body_end \<times> 'w agent" where
  "check_and_execute env tool_use tool_results s =
     (let tool_name = tu_name tool_use; tool_params = tu_input tool_use; tool_id = tu_id tool_use
      in if mode_rejects (mode s) tool_name
         then (Next (tool_results @ [(tool_id, rejection tool_name)]), s)
         else if tool_name = ''plan_mode_respond''
         then (case agent_input env s of
                 (Inl e, s1) \<Rightarrow> (Raise e, s1)
               | (Inr line, s1) \<Rightarrow>
                   if lower (strip line) = ''switch''
                   then (Next (tool_results @
                                 [(tool_id, ''User switched to ACT mode. You can now execute actions.'')]),
                         s1\<lparr>mode := ACT\<rparr>)
                   else (Next (tool_results @ [(tool_id, ''Plan acknowledged. Continue in PLAN mode.'')]),
                         s1))
         else if tool_name \<in> set agent_tools
         then (case env_tool env tool_name (working_dir s) tool_params (agent_world s) of
                 (Inr result, w) \<Rightarrow>
                   if tool_name = ''attempt_completion''
                   then (Return result,
                         s\<lparr>agent_world := w,
                           agent_trace := agent_trace s @ [Dispatch tool_name tool_params]\<rparr>)
                   else (Next (tool_results @ [(tool_id, result)]),
                         s\<lparr>agent_world := w,
                           agent_trace := agent_trace s @ [Dispatch tool_name tool_params]\<rparr>)
               | (Inl e, w) \<Rightarrow>
                   (Next (tool_results @ [(tool_id, ''Error: '' @ e)]),
                    s\<lparr>agent_world := w,
                      agent_trace := agent_trace s @ [Dispatch tool_name tool_params]\<rparr>))
         else (Next (tool_results @ [(tool_id, ''Unknown tool: '' @ tool_name)]), s))"

text \<open>The whole body: the prompt for an interruption comes first.\<close>

definition process_tool ::
  "'w env \<Rightarrow> tool_use \<Rightarrow> tool_result list \<Rightarrow> 'w agent \<Rightarrow> body_end \<times> 'w agent" where
  "process_tool env tool_use tool_results s =
     (if tu_name tool_use \<notin> set immediate_tools
      then (case agent_input env s of
              (Inl e, s1) \<Rightarrow> (Raise e, s1)
            | (Inr line, s1) \<Rightarrow>
                if strip line \<noteq> [] then (Break (strip line), s1)
                else check_and_execute env tool_use tool_results s1)
      else check_and_execute env tool_use tool_results s)"

fun run_tools ::
  "'w env \<Rightarrow> tool_use list \<Rightarrow> tool_result list \<Rightarrow> 'w agent \<Rightarrow> body_end \<times> 'w agent" where
  "run_tools env [] tool_results s = (Next tool_results, s)"
| "run_tools env (tool_use # tool_uses) tool_results s =
     (case process_tool env tool_use tool_results s of
        (Next tool_results', s1) \<Rightarrow> run_tools env tool_uses tool_results' s1
      | (Break feedback, s1) \<Rightarrow> (Break feedback, s1)
      | (Return result, s1) \<Rightarrow> (Return result, s1)
      | (Raise e, s1) \<Rightarrow> (Raise e, s1))"

text \<open>\<^verbatim>\<open>SimpleAgent.build_context\<close>: a failing \<^verbatim>\<open>os.listdir\<close> only leaves the files out.\<close>

definition agent_build_context :: "'w env \<Rightarrow> 'w agent \<Rightarrow> string \<times> 'w agent" where
  "agent_build_context env s =
     (case env_listdir env (working_dir s) (agent_world s) of
        (r, w) \<Rightarrow>
          (case env_now env w of
             (now, w') \<Rightarrow>
               (context_text (working_dir s) (case r of Inl e \<Rightarrow> None | Inr files \<Rightarrow> Some files) now,
                s\<lparr>agent_world := w'\<rparr>)))"

definition agent_nudge :: string where
  "agent_nudge = ''Please use a tool to complete the task, or call attempt_completion when done.''"

text \<open>The \<^verbatim>\<open>async for\<close> of the console loop only collects.\<close>

fun collect :: "fragment list \<Rightarrow> string \<Rightarrow> tool_use list \<Rightarrow> string \<times> tool_use list" where
  "collect [] assistant_message tool_uses = (assistant_message, tool_uses)"
| "collect (Text text # fs) assistant_message tool_uses =
     collect fs (assistant_message @ text) tool_uses"
| "collect (ToolUse chunk # fs) assistant_message tool_uses =
     collect fs assistant_message (tool_uses @ [chunk])"

text \<open>
  The first half of a pass of \<^verbatim>\<open>while True\<close>: the context is built, the user turn is
  appended and the provider is called with the working directory and the mode of the
  agent.
\<close>

definition agent_request :: "'w env \<Rightarrow> string \<Rightarrow> 'w agent \<Rightarrow> stream_result \<times> 'w agent" where
  "agent_request env user_content s =
     (case agent_build_context env s of
        (context, s1) \<Rightarrow>
          (let s2 = s1\<lparr>agent_history := agent_history s1 @ [(User, user_content @ nl @ nl @ context)]\<rparr>
           in case ai_client_stream_message env (agent_history s2) (Some (working_dir s2))
                     (Some (mode s2)) (agent_world s2) of
                ((answer, w), call) \<Rightarrow>
                  (answer, s2\<lparr>agent_world := w, agent_trace := agent_trace s2 @ [call]\<rparr>)))"

text \<open>
  One pass of the body: the next user content, one of the two \<^verbatim>\<open>return\<close>s (after a
  completion, after an exception of the provider), or an exception of \<^verbatim>\<open>input()\<close>
  that leaves the loop.
\<close>

datatype 'w agent_step =
    AContinue string "'w agent"
  | ACompleted string "'w agent"
  | AFailed py_error "'w agent"
  | ACrashed py_error "'w agent"

definition agent_iteration :: "'w env \<Rightarrow> string \<Rightarrow> 'w agent \<Rightarrow> 'w agent_step" where
  "agent_iteration env user_content s =
     (case agent_request env user_content s of
        ((frags, Some e), s3) \<Rightarrow> AFailed e s3
      | ((frags, None), s3) \<Rightarrow>
          (case collect frags [] [] of
             (assistant_message, tool_uses) \<Rightarrow>
               (let s4 = s3\<lparr>agent_history := agent_history s3 @ [(Assistant, assistant_message)]\<rparr>
                in if tool_uses = [] then AContinue agent_nudge s4
                   else (case run_tools env tool_uses [] s4 of
                           (Return result, s5) \<Rightarrow> ACompleted result s5
                         | (Raise e, s5) \<Rightarrow> ACrashed (Raised e) s5
                         | (Break feedback, s5) \<Rightarrow>
                             AContinue (''<feedback>'' @ nl @ feedback @ nl @ ''</feedback>'') s5
                         | (Next tool_results, s5) \<Rightarrow>
                             if tool_results \<noteq> [] then AContinue (fold_results tool_results) s5
                             else AContinue user_content s5))))"

text \<open>
  \<^verbatim>\<open>SimpleAgent.task_loop\<close>, with a count of the passes it may still make as in
  \<open>task_loop\<close>.
\<close>

datatype 'w agent_outcome =
    Completed string "'w agent"
  | ProviderFailed py_error "'w agent"
  | AgentCrashed py_error "'w agent"
  | StillRunning string "'w agent"

fun agent_task_loop :: "'w env \<Rightarrow> nat \<Rightarrow> string \<Rightarrow> 'w agent \<Rightarrow> 'w agent_outcome" where
  "agent_task_loop env 0 user_content s = StillRunning user_content s"
| "agent_task_loop env (Suc n) user_content s =
     (case agent_iteration env user_content s of
        AContinue user_content' s' \<Rightarrow> agent_task_loop env n user_content' s'
      | ACompleted result s' \<Rightarrow> Completed result s'
      | AFailed e s' \<Rightarrow> ProviderFailed e s'
      | ACrashed e s' \<Rightarrow> AgentCrashed e s')"

text \<open>
  \<^verbatim>\<open>SimpleAgent.run\<close>: the choice of the starting mode, then the loop. The first
  component of \<open>choose_mode\<close> is the exception of \<^verbatim>\<open>input()\<close>, if it raises.
\<close>

definition choose_mode :: "'w env \<Rightarrow> 'w agent \<Rightarrow> string option \<times> 'w agent" where
  "choose_mode env s =
     (case agent_input env s of
        (Inl e, s1) \<Rightarrow> (Some e, s1)
      | (Inr line, s1) \<Rightarrow>
          (None, if strip line = ''2'' then s1\<lparr>mode := ACT\<rparr> else s1\<lparr>mode := PLAN\<rparr>))"

definition agent_run :: "'w env \<Rightarrow> nat \<Rightarrow> string \<Rightarrow> 'w agent \<Rightarrow> 'w agent_outcome" where
  "agent_run env n task s =
     (case choose_mode env s of
        (Some e, s1) \<Rightarrow> AgentCrashed (Raised e) s1
      | (None, s1) \<Rightarrow> agent_task_loop env n (''<task>'' @ nl @ task @ nl @ ''</task>'') s1)"

fun agent_final :: "'w agent_outcome \<Rightarrow> 'w agent" where
  "agent_final (Completed r s) = s"
| "agent_final (ProviderFailed e s) = s"
| "agent_final (AgentCrashed e s) = s"
| "agent_final (StillRunning u s) = s"

section \<open>Predicates and inputs used in the statements\<close>

text \<open>
  No text fragment comes after a tool-use fragment.
\<close>

definition texts_before_tools :: "fragment list \<Rightarrow> bool" where
  "texts_before_tools frs =
     (\<forall>i j. i < j \<and> j < length frs \<and> is_tool_use (frs ! i) \<longrightarrow> \<not> is_text (frs ! j))"

text \<open>
  Texts made of tags. A tag is written \<^verbatim>\<open><n>body</n>\<close>; a sequence of tags is given as
  the list of its tags, each with the text that stands before it, and the text after the
  last tag. Such a sequence is well tagged when the texts around the tags have no
  \<^verbatim>\<open><\<close>, the names are words and no body contains the closing tag of its own name.
\<close>

definition render_tag :: "string \<Rightarrow> string \<Rightarrow> string" where
  "render_tag n body = CHR ''<'' # n @ CHR ''>'' # body @ closing_tag n"

type_synonym tag = "string \<times> string \<times> string"

fun render_seq :: "tag list \<Rightarrow> string \<Rightarrow> string" where
  "render_seq [] after = after"
| "render_seq ((before, n, body) # tags) after = before @ render_tag n body @ render_seq tags after"

definition tag_name :: "tag \<Rightarrow> string" where
  "tag_name t = fst (snd t)"

definition tag_body :: "tag \<Rightarrow> string" where
  "tag_body t = snd (snd t)"

definition well_tagged :: "tag list \<Rightarrow> string \<Rightarrow> bool" where
  "well_tagged tags after =
     (list_all (\<lambda>t. CHR ''<'' \<notin> set (fst t) \<and> tag_name t \<noteq> [] \<and> list_all is_word (tag_name t) \<and>
                     \<not> sublist (closing_tag (tag_name t)) (tag_body t)) tags \<and>
      CHR ''<'' \<notin> set after)"

text \<open>
  The top level of a text: a block of a tool, with the text before it, its name, its
  parameters and the text after its last parameter; or any other tag, with the text
  before it, its name and its content, whatever that is.
\<close>

datatype block = Block string string "tag list" string | Other string string string

fun block_tag :: "block \<Rightarrow> tag" where
  "block_tag (Block before t ps after) = (before, t, render_seq ps after)"
| "block_tag (Other before n content) = (before, n, content)"

definition render_doc :: "block list \<Rightarrow> string \<Rightarrow> string" where
  "render_doc blocks after = render_seq (map block_tag blocks) after"

fun block_ok :: "block \<Rightarrow> bool" where
  "block_ok (Block before t ps after) =
     (t \<in> set valid_tools \<and> well_tagged ps after \<and> distinct (map tag_name ps) \<and>
      ''options'' \<notin> set (map tag_name ps))"
| "block_ok (Other before n content) = (n \<notin> set valid_tools)"

definition well_formed :: "block list \<Rightarrow> string \<Rightarrow> bool" where
  "well_formed blocks after =
     (list_all block_ok blocks \<and> well_tagged (map block_tag blocks) after \<and>
      ascii (render_doc blocks after))"

text \<open>
  The invocations that the blocks of a text stand for: one for each block of a tool, with
  each parameter's trimmed body as its value.
\<close>

fun invocations :: "block list \<Rightarrow> tool_use list" where
  "invocations [] = []"
| "invocations (Block before t ps after # bs) =
     \<lparr>tu_name = t, tu_id = ''tool_'' @ t,
      tu_input = map (\<lambda>p. (tag_name p, PStr (strip (tag_body p)))) ps\<rparr> # invocations bs"
| "invocations (Other before n content # bs) = invocations bs"

text \<open>The modes of the provider calls of a trace, in order, and its tool calls.\<close>

fun call_modes :: "event list \<Rightarrow> mode list" where
  "call_modes [] = []"
| "call_modes (ProviderCall dir m # es) = m # call_modes es"
| "call_modes (e # es) = call_modes es"

fun dispatched :: "event list \<Rightarrow> string list" where
  "dispatched [] = []"
| "dispatched (Dispatch tool_name ps # es) = tool_name # dispatched es"
| "dispatched (e # es) = dispatched es"

text \<open>
  A hundred thousand opening brackets and as many closing ones: valid JSON, on which
  \<^verbatim>\<open>json.loads\<close> raises \<^verbatim>\<open>RecursionError\<close>.
\<close>

definition deep_nesting :: string where
  "deep_nesting = replicate 100000 (CHR ''['') @ replicate 100000 (CHR '']'')"

text \<open>
  A decoder for running the functions on concrete inputs. It knows five texts, for which
  it answers as \<^verbatim>\<open>json.loads\<close> does; to the other texts that the statements below give
  it, which are not JSON, it answers with the decode error, as \<^verbatim>\<open>json.loads\<close> does.
\<close>

definition sample_loads :: json_loads where
  "sample_loads s =
     (if s = ''[\"a\",\"b\"]'' then Inr (JArr [JStr ''a'', JStr ''b''])
      else if s = ''{\"partial\":{\"ok\":true}}''
      then Inr (JObj [(''partial'', JObj [(''ok'', JBool True)])])
      else if s = ''{\"type\":\"assistant\",\"message\":{\"content\":[{\"type\":\"text\",\"text\":\"<read_file><path>a</path></read_file>\"}]}}''
      then Inr (JObj [(''type'', JStr ''assistant''),
                      (''message'',
                       JObj [(''content'',
                              JArr [JObj [(''type'', JStr ''text''),
                                          (''text'', JStr ''<read_file><path>a</path></read_file>'')]])])])
      else if s = ''{\"type\":\"result\"}'' then Inr (JObj [(''type'', JStr ''result'')])
      else if s = deep_nesting then Inl RecursionError
      else Inl JSONDecodeError)"

text \<open>An answer of the API and a run of the child process, for the sample decoder.\<close>

definition sample_api :: api_answer where
  "sample_api =
     \<lparr>create_error = None,
      stream_chunks = [[Some ''I read. ''], [None], [Some ''<read_file><path>a</path>''],
                       [Some ''</read_file>'']],
      stream_error = None\<rparr>"

definition sample_run :: process_run where
  "sample_run =
     \<lparr>spawn_error = None,
      stdout_lines =
        [''{\"type\":\"assistant\",\"message\":{\"content\":[{\"type\":\"text\",\"text\":\"<read_file><path>a</path></read_file>\"}]}}'' @ [CHR 0x0A],
         ''{\"type\":\"result\"}'' @ [CHR 0x0A]],
      returncode = 0,
      stderr_output = []\<rparr>"

text \<open>
  A console that delivers ASCII lines only: the statements about the console loop assume
  it, since they depend on how \<^verbatim>\<open>strip\<close> and \<^verbatim>\<open>lower\<close> classify the characters
  of the lines typed.
\<close>

definition ascii_console :: "'w env \<Rightarrow> bool" where
  "ascii_console env =
     (\<forall>w. case fst (env_input env w) of Inr line \<Rightarrow> ascii line | Inl e \<Rightarrow> True)"

text \<open>
  A scripted environment: the console lines and the provider answers are taken from two
  lists (an exhausted list gives an empty line, an empty stream; a line that is not
  ASCII makes \<^verbatim>\<open>input()\<close> raise, as on a console with that encoding);
  \<^verbatim>\<open>attempt_completion\<close> returns its \<^verbatim>\<open>result\<close> as tools.py has it,
  \<^verbatim>\<open>read_file\<close> raises, the other tools return a fixed text; the websocket works or
  is closed.
\<close>

record script =
  inputs :: "string list"
  answers :: "stream_result list"
  sink_up :: bool

definition sample_tool :: "string \<Rightarrow> params \<Rightarrow> string + string" where
  "sample_tool tool_name ps =
     (if tool_name = ''attempt_completion''
      then (case map_of ps ''result'' of
              Some (PStr r) \<Rightarrow> Inr r
            | _ \<Rightarrow> Inl ''missing argument'')
      else if tool_name = ''read_file'' then Inl ''boom''
      else Inr ''ok'')"

definition sample_env :: "script env" where
  "sample_env =
     \<lparr>env_listdir = (\<lambda>dir w. (Inr [''a.txt''], w)),
      env_now = (\<lambda>w. (''noon'', w)),
      env_stream = (\<lambda>conversation dir m w.
         case answers w of
           [] \<Rightarrow> (([], None), w)
         | a # as \<Rightarrow> (a, w\<lparr>answers := as\<rparr>)),
      env_tool = (\<lambda>tool_name dir ps w. (sample_tool tool_name ps, w)),
      env_input = (\<lambda>w.
         case inputs w of
           [] \<Rightarrow> (Inr [], w)
         | l # ls \<Rightarrow> (if ascii l then Inr l else Inl ''UnicodeDecodeError'', w\<lparr>inputs := ls\<rparr>)),
      env_send_json = (\<lambda>msg w. (if sink_up w then None else Some ''closed'', w))\<rparr>"

definition sample_task :: "script \<Rightarrow> script task" where
  "sample_task w =
     \<lparr>conversation_history = [], abort = False, config_cwd = ''/w'', world = w, trace = []\<rparr>"

definition sample_agent :: "mode \<Rightarrow> script \<Rightarrow> script agent" where
  "sample_agent m w = (new_agent ''/w'' w)\<lparr>mode := m\<rparr>"

text \<open>What a pass of the console loop leaves: the next user content, if it goes on, and the state.\<close>

fun next_content :: "'w agent_step \<Rightarrow> string option" where
  "next_content (AContinue u s) = Some u"
| "next_content (ACompleted r s) = None"
| "next_content (AFailed e s) = None"
| "next_content (ACrashed e s) = None"

fun step_state :: "'w agent_step \<Rightarrow> 'w agent" where
  "step_state (AContinue u s) = s"
| "step_state (ACompleted r s) = s"
| "step_state (AFailed e s) = s"
| "step_state (ACrashed e s) = s"

definition tool_call :: "string \<Rightarrow> params \<Rightarrow> tool_use" where
  "tool_call tool_name ps = \<lparr>tu_name = tool_name, tu_id = ''tool_'' @ tool_name, tu_input = ps\<rparr>"

text \<open>A world whose provider answers with text only and whose websocket is closed.\<close>

definition text_only_world :: script where
  "text_only_world = \<lparr>inputs = [], answers = [([Text ''Just '', Text ''text.''], None)], sink_up = False\<rparr>"

text \<open>
  A world whose provider asks for a write, a completion and a search in one answer; one
  whose provider asks for a read (which fails), a tool that is not registered and a
  write; one whose provider presents a plan. Each with the lines typed on the console.
\<close>

definition completion_world :: "string list \<Rightarrow> script" where
  "completion_world lines =
     \<lparr>inputs = lines,
      answers = [([Text ''Writing. '',
                   ToolUse (tool_call ''write_to_file''
                              [(''path'', PStr ''hello.txt''), (''content'', PStr ''Hello'')]),
                   ToolUse (tool_call ''attempt_completion'' [(''result'', PStr ''done'')]),
                   ToolUse (tool_call ''search_files'' [(''pattern'', PStr ''x'')])], None)],
      sink_up = True\<rparr>"

definition failing_world :: "string list \<Rightarrow> script" where
  "failing_world lines =
     \<lparr>inputs = lines,
      answers = [([ToolUse (tool_call ''read_file'' [(''path'', PStr ''a'')]),
                   ToolUse (tool_call ''ask_followup_question'' [(''question'', PStr ''q'')]),
                   ToolUse (tool_call ''write_to_file'' [(''path'', PStr ''a'')])], None)],
      sink_up = True\<rparr>"

definition switch_world :: "string list \<Rightarrow> script" where
  "switch_world lines =
     \<lparr>inputs = lines,
      answers = [([Text ''Plan. '',
                   ToolUse (tool_call ''plan_mode_respond'' [(''response'', PStr ''the plan'')])],
                  None)],
      sink_up = True\<rparr>"

definition plan_agent :: "string list \<Rightarrow> script agent" where
  "plan_agent lines = sample_agent PLAN \<lparr>inputs = lines, answers = [], sink_up = True\<rparr>"

text \<open>
  A text in the format that the system prompt asks for: prose, a tag that is not a tool
  around a tool block, then two tool blocks with their parameters on lines of their own.
\<close>

definition sample_doc :: "block list" where
  "sample_doc =
     [Other (''I will write.'' @ [CHR 0x0A]) ''thinking'' ''<read_file><path>x</path></read_file>'',
      Block [CHR 0x0A] ''write_to_file''
        [([CHR 0x0A], ''path'', ''a.txt''),
         ([CHR 0x0A], ''content'', '' <b>hi</b><read_file><path>x</path></read_file> '')]
        [CHR 0x0A],
      Block [CHR 0x0A] ''attempt_completion''
        [([CHR 0x0A], ''result'', ''done'')]
        [CHR 0x0A]]"


section \<open>Facts about the tag parser\<close>

lemma find_close_first:
  assumes "x \<notin> set c'" and "\<not> sublist (x # c') b"
  shows "find_close (x # c') (b @ (x # c') @ rest) = Some (b, rest)"
  using assms(2)
proof (induction b)
  case Nil
  show ?case by simp
next
  case (Cons y b')
  from Cons.prems have np: "\<not> prefix (x # c') (y # b')" and ns: "\<not> sublist (x # c') b'"
    by (simp_all add: sublist_Cons_right)
  have "\<not> prefix (x # c') (y # b' @ (x # c') @ rest)"
  proof
    assume p: "prefix (x # c') (y # b' @ (x # c') @ rest)"
    then have xy: "x = y" and p': "prefix c' (b' @ x # c' @ rest)" by auto
    from p' have "prefix c' b' \<or> (\<exists>us. c' = b' @ us \<and> prefix us (x # c' @ rest))"
      by (simp only: prefix_append)
    then show False
    proof
      assume "prefix c' b'"
      with xy np show False by simp
    next
      assume "\<exists>us. c' = b' @ us \<and> prefix us (x # c' @ rest)"
      then obtain us where us: "c' = b' @ us" "prefix us (x # c' @ rest)" by blast
      show False
      proof (cases us)
        case Nil
        with us(1) xy np show False by simp
      next
        case (Cons u us')
        with us(2) have "u = x" by simp
        with Cons us(1) have "x \<in> set c'" by simp
        with assms(1) show False by simp
      qed
    qed
  qed
  with Cons.IH[OF ns] show ?case by simp
qed

lemma not_word_lt [simp]: "\<not> is_word CHR ''<''" by (simp add: is_word_def)

lemma not_word_gt [simp]: "\<not> is_word CHR ''>''" by (simp add: is_word_def)

lemma closing_tag_first:
  assumes "list_all is_word n" and "\<not> sublist (closing_tag n) b"
  shows "find_close (closing_tag n) (b @ closing_tag n @ rest) = Some (b, rest)"
proof -
  have "CHR ''<'' \<notin> set (CHR ''/'' # n @ [CHR ''>''])"
    using assms(1) by (auto simp: list_all_iff)
  from find_close_first[OF this] assms(2) show ?thesis
    by (simp add: closing_tag_def)
qed

lemma match_tag_block:
  assumes "n \<noteq> []" and "list_all is_word n" and "\<not> sublist (closing_tag n) b"
  shows "match_tag (CHR ''<'' # n @ CHR ''>'' # b @ closing_tag n @ rest) = Some (n, b, rest)"
proof -
  have tw: "takeWhile is_word (n @ CHR ''>'' # b @ closing_tag n @ rest) = n"
    using assms(2) by (simp add: list_all_iff takeWhile_append2 takeWhile_tail)
  have dw: "dropWhile is_word (n @ CHR ''>'' # b @ closing_tag n @ rest) = CHR ''>'' # b @ closing_tag n @ rest"
    using assms(2) by (simp add: list_all_iff dropWhile_append2)
  show ?thesis
    using assms(1) closing_tag_first[OF assms(2,3)]
    by (simp add: match_tag_def tw dw del: takeWhile_append dropWhile_append)
qed

lemma finditer_skip:
  "CHR ''<'' \<notin> set pre \<Longrightarrow> finditer (pre @ s) = finditer s"
  by (induction pre) (auto simp: match_tag_def)

lemma finditer_no_lt:
  "CHR ''<'' \<notin> set s \<Longrightarrow> finditer s = []"
  using finditer_skip[of s "[]"] by simp

lemma finditer_seq:
  "well_tagged tags after \<Longrightarrow>
     finditer (render_seq tags after) = map (\<lambda>t. (tag_name t, tag_body t)) tags"
proof (induction tags)
  case Nil
  then show ?case by (simp add: well_tagged_def finditer_no_lt)
next
  case (Cons t tags)
  obtain before n body where t: "t = (before, n, body)" by (cases t)
  from Cons.prems t have h: "CHR ''<'' \<notin> set before" "n \<noteq> []" "list_all is_word n"
    "\<not> sublist (closing_tag n) body" and rest: "well_tagged tags after"
    by (simp_all add: well_tagged_def tag_name_def tag_body_def)
  have "finditer (CHR ''<'' # n @ CHR ''>'' # body @ closing_tag n @ render_seq tags after)
      = (n, body) # finditer (render_seq tags after)"
    by (simp add: match_tag_block[OF h(2,3,4)])
  then have "finditer (before @ render_tag n body @ render_seq tags after)
      = (n, body) # finditer (render_seq tags after)"
    by (simp add: finditer_skip[OF h(1)] render_tag_def)
  with Cons.IH[OF rest] t show ?case
    by (simp add: tag_name_def tag_body_def)
qed

lemma valid_tool_word: "t \<in> set valid_tools \<Longrightarrow> t \<noteq> [] \<and> list_all is_word t"
  by (auto simp: valid_tools_def is_word_def)

lemma update_fresh:
  "k \<notin> fst ` set al \<Longrightarrow> AList.update k v al = al @ [(k, v)]"
  by (induction al) auto

lemma parse_params_fresh:
  "distinct (map fst ms) \<Longrightarrow> ''options'' \<notin> set (map fst ms) \<Longrightarrow>
   set (map fst ms) \<inter> fst ` set acc = {} \<Longrightarrow>
     parse_params loads ms acc = Inr (acc @ map (\<lambda>m. (fst m, PStr (strip (snd m)))) ms)"
proof (induction ms arbitrary: acc)
  case Nil
  show ?case by simp
next
  case (Cons m ms)
  obtain k raw where m: "m = (k, raw)" by (cases m)
  from Cons.prems m have k: "k \<noteq> ''options''" "k \<notin> fst ` set acc" "k \<notin> set (map fst ms)"
    by auto
  have d: "decode_param loads k (strip raw) = Inr (PStr (strip raw))"
    using k(1) by (simp add: decode_param_def)
  have u: "AList.update k (PStr (strip raw)) acc = acc @ [(k, PStr (strip raw))]"
    using k(2) by (rule update_fresh)
  have "set (map fst ms) \<inter> fst ` set (acc @ [(k, PStr (strip raw))]) = {}"
    using Cons.prems(3) k(3) m by auto
  from Cons.IH[OF _ _ this] Cons.prems(1,2)
  have "parse_params loads ms (acc @ [(k, PStr (strip raw))]) =
          Inr ((acc @ [(k, PStr (strip raw))]) @ map (\<lambda>m. (fst m, PStr (strip (snd m)))) ms)"
    by simp
  then show ?case by (simp add: m d u)
qed

lemma tool_uses_of_blocks:
  "list_all block_ok blocks \<Longrightarrow>
     tool_uses_of loads (map (\<lambda>b. (tag_name (block_tag b), tag_body (block_tag b))) blocks) =
       (invocations blocks, None)"
proof (induction blocks)
  case Nil
  show ?case by simp
next
  case (Cons b blocks)
  from Cons.prems have ih: "tool_uses_of loads
      (map (\<lambda>b. (tag_name (block_tag b), tag_body (block_tag b))) blocks) = (invocations blocks, None)"
    using Cons.IH by simp
  show ?case
  proof (cases b)
    case (Block before t ps after)
    with Cons.prems have ok: "t \<in> set valid_tools" "well_tagged ps after"
      "distinct (map tag_name ps)" "''options'' \<notin> set (map tag_name ps)"
      by simp_all
    have f: "finditer (render_seq ps after) = map (\<lambda>p. (tag_name p, tag_body p)) ps"
      by (rule finditer_seq[OF ok(2)])
    have m: "map fst (map (\<lambda>p. (tag_name p, tag_body p)) ps) = map tag_name ps"
      by simp
    have "parse_params loads (map (\<lambda>p. (tag_name p, tag_body p)) ps) [] =
            Inr ([] @ map (\<lambda>m. (fst m, PStr (strip (snd m)))) (map (\<lambda>p. (tag_name p, tag_body p)) ps))"
      using ok(3,4) by (intro parse_params_fresh) (simp_all add: comp_def)
    then have p: "parse_params loads (finditer (render_seq ps after)) [] =
            Inr (map (\<lambda>p. (tag_name p, PStr (strip (tag_body p)))) ps)"
      by (simp add: f comp_def)
    show ?thesis
      using ok(1) ih p by (simp add: Block tag_name_def tag_body_def)
  next
    case (Other before n content)
    with Cons.prems have "n \<notin> set valid_tools" by simp
    with ih show ?thesis by (simp add: Other tag_name_def tag_body_def)
  qed
qed

text \<open>
  Claim C4, as amended. Take an ASCII text made of tags with text without \<^verbatim>\<open><\<close>
  before, between and after them, each tag with a name of word characters and a content
  that does not contain the closing tag of that name; where the name is a valid tool, the
  content is in turn made of parameters in the same way (text without \<^verbatim>\<open><\<close> around
  them, no body containing the closing tag of its parameter), with distinct names other
  than \<^verbatim>\<open>options\<close>. Then the first pass finds exactly the tags of the top level, the
  second pass finds exactly the parameters of each tool block, and the parser yields, in
  order and without raising, one invocation for each tool block and none for the other
  tags, whatever these contain; the value of each parameter is its trimmed body,
  whatever tags that body contains. Nothing inside a body becomes a further parameter or
  a further invocation: there is no third pass.
\<close>

theorem nested_tags_kept_verbatim:
  assumes "well_formed blocks after"
  shows "finditer (render_doc blocks after) =
           map (\<lambda>b. (tag_name (block_tag b), tag_body (block_tag b))) blocks \<and>
         (\<forall>before t ps gap. Block before t ps gap \<in> set blocks \<longrightarrow>
            finditer (render_seq ps gap) = map (\<lambda>p. (tag_name p, tag_body p)) ps) \<and>
         parse_tool_uses loads (render_doc blocks after) = (invocations blocks, None)"
proof -
  from assms have ok: "list_all block_ok blocks"
    and wt: "well_tagged (map block_tag blocks) after"
    by (simp_all add: well_formed_def)
  have first: "finditer (render_doc blocks after) =
           map (\<lambda>b. (tag_name (block_tag b), tag_body (block_tag b))) blocks"
    using finditer_seq[OF wt] by (simp add: render_doc_def comp_def)
  have second: "\<forall>before t ps gap. Block before t ps gap \<in> set blocks \<longrightarrow>
            finditer (render_seq ps gap) = map (\<lambda>p. (tag_name p, tag_body p)) ps"
  proof (intro allI impI)
    fix before t ps gap
    assume mem: "Block before t ps gap \<in> set blocks"
    from ok have "\<forall>x\<in>set blocks. block_ok x" by (simp only: list_all_iff)
    with mem have "block_ok (Block before t ps gap)" by blast
    then have "well_tagged ps gap" by simp
    then show "finditer (render_seq ps gap) = map (\<lambda>p. (tag_name p, tag_body p)) ps"
      by (rule finditer_seq)
  qed
  have whole: "parse_tool_uses loads (render_doc blocks after) = (invocations blocks, None)"
    by (simp only: parse_tool_uses_def first tool_uses_of_blocks[OF ok])
  from first second whole show ?thesis by blast
qed

text \<open>
  The theorem on a text in the format of the system prompt: the tool block inside
  \<^verbatim>\<open>thinking\<close> yields nothing, and the \<^verbatim>\<open>content\<close> of the write keeps a tag pair and a
  whole \<^verbatim>\<open>read_file\<close> block as its value.
\<close>

theorem nested_tags_kept_verbatim_witness:
  "well_formed sample_doc ''bye'' \<and>
   render_doc sample_doc ''bye'' =
     ''I will write.'' @ [CHR 0x0A] @
     ''<thinking><read_file><path>x</path></read_file></thinking>'' @ [CHR 0x0A] @
     ''<write_to_file>'' @ [CHR 0x0A] @
     ''<path>a.txt</path>'' @ [CHR 0x0A] @
     ''<content> <b>hi</b><read_file><path>x</path></read_file> </content>'' @ [CHR 0x0A] @
     ''</write_to_file>'' @ [CHR 0x0A] @
     ''<attempt_completion>'' @ [CHR 0x0A] @
     ''<result>done</result>'' @ [CHR 0x0A] @
     ''</attempt_completion>bye'' \<and>
   parse_tool_uses sample_loads (render_doc sample_doc ''bye'') =
     ([\<lparr>tu_name = ''write_to_file'', tu_id = ''tool_write_to_file'',
        tu_input = [(''path'', PStr ''a.txt''),
                    (''content'', PStr ''<b>hi</b><read_file><path>x</path></read_file>'')]\<rparr>,
       \<lparr>tu_name = ''attempt_completion'', tu_id = ''tool_attempt_completion'',
        tu_input = [(''result'', PStr ''done'')]\<rparr>], None)"
proof -
  have r: "render_doc sample_doc ''bye'' =
     ''I will write.'' @ [CHR 0x0A] @
     ''<thinking><read_file><path>x</path></read_file></thinking>'' @ [CHR 0x0A] @
     ''<write_to_file>'' @ [CHR 0x0A] @
     ''<path>a.txt</path>'' @ [CHR 0x0A] @
     ''<content> <b>hi</b><read_file><path>x</path></read_file> </content>'' @ [CHR 0x0A] @
     ''</write_to_file>'' @ [CHR 0x0A] @
     ''<attempt_completion>'' @ [CHR 0x0A] @
     ''<result>done</result>'' @ [CHR 0x0A] @
     ''</attempt_completion>bye''"
    by (simp add: render_doc_def sample_doc_def render_tag_def closing_tag_def)
  have a: "ascii (render_doc sample_doc ''bye'')"
    unfolding r by (simp add: ascii_def)
  have b: "list_all block_ok sample_doc"
    by (simp add: sample_doc_def valid_tools_def well_tagged_def tag_name_def tag_body_def
        is_word_def closing_tag_def sublist_Cons_right)
  have c: "well_tagged (map block_tag sample_doc) ''bye''"
    by (simp add: sample_doc_def well_tagged_def tag_name_def tag_body_def
        is_word_def closing_tag_def render_tag_def sublist_Cons_right)
  have w: "well_formed sample_doc ''bye''"
    using a b c by (simp add: well_formed_def)
  have i: "invocations sample_doc =
     [\<lparr>tu_name = ''write_to_file'', tu_id = ''tool_write_to_file'',
        tu_input = [(''path'', PStr ''a.txt''),
                    (''content'', PStr ''<b>hi</b><read_file><path>x</path></read_file>'')]\<rparr>,
       \<lparr>tu_name = ''attempt_completion'', tu_id = ''tool_attempt_completion'',
        tu_input = [(''result'', PStr ''done'')]\<rparr>]"
    by (simp add: sample_doc_def tag_name_def tag_body_def strip_def is_space_def)
  from nested_tags_kept_verbatim[OF w, of sample_loads]
  have "parse_tool_uses sample_loads (render_doc sample_doc ''bye'') = (invocations sample_doc, None)"
    by blast
  with w r i show ?thesis by (simp only:)
qed

text \<open>
  Claim C4 as it was stated fails for a nested tag with the name of the parameter: the
  parameter ends at the nested closing tag. In the first text the body of \<^verbatim>\<open>content\<close>
  is not kept, and its second nested tag is read as a further parameter that overwrites
  the first; in the second text the tag nested in \<^verbatim>\<open>path\<close> with the name of the tool
  ends the block, loses the parameter and yields a further invocation.
\<close>

theorem nested_same_name_counterexample:
  "parse_tool_uses sample_loads
     ''<write_to_file><content><content>a</content><content>b</content></content></write_to_file>''
   = ([\<lparr>tu_name = ''write_to_file'', tu_id = ''tool_write_to_file'',
        tu_input = [(''content'', PStr ''b'')]\<rparr>], None) \<and>
   parse_tool_uses sample_loads
     ''<read_file><path><read_file>a</read_file><read_file><path>b</path></read_file></path></read_file>''
   = ([\<lparr>tu_name = ''read_file'', tu_id = ''tool_read_file'', tu_input = []\<rparr>,
       \<lparr>tu_name = ''read_file'', tu_id = ''tool_read_file'', tu_input = [(''path'', PStr ''b'')]\<rparr>],
      None)"
  by (simp add: parse_tool_uses_def match_tag_def closing_tag_def is_word_def valid_tools_def
      decode_param_def strip_def is_space_def)



lemma deep_nesting_length: "length deep_nesting = 200000"
  by (simp add: deep_nesting_def)

lemma not_deep_nesting: "length s < 200000 \<Longrightarrow> (s = deep_nesting) = False"
  using deep_nesting_length by auto









section \<open>Facts about the two providers\<close>

lemma ascii_utf8_valid: "ascii s \<Longrightarrow> utf8_valid s"
  by (induction s) (simp_all add: ascii_def byte_in_def)

lemma decode_ascii: "ascii s \<Longrightarrow> decode s = Inr s"
  by (simp add: decode_def ascii_utf8_valid)

lemma texts_then_tools: "texts_before_tools (map Text ts @ map ToolUse us)"
  unfolding texts_before_tools_def
proof (intro allI impI)
  fix i j
  assume h: "i < j \<and> j < length (map Text ts @ map ToolUse us) \<and>
             is_tool_use ((map Text ts @ map ToolUse us) ! i)"
  have "\<not> i < length ts"
  proof
    assume "i < length ts"
    then have "(map Text ts @ map ToolUse us) ! i = Text (ts ! i)"
      by (simp add: nth_append)
    with h show False by simp
  qed
  with h have "\<not> j < length ts" and "j - length ts < length us" by auto
  then have "(map Text ts @ map ToolUse us) ! j = ToolUse (us ! (j - length ts))"
    by (simp add: nth_append)
  then show "\<not> is_text ((map Text ts @ map ToolUse us) ! j)" by simp
qed

lemma texts_alone: "texts_before_tools (map Text ts)"
  using texts_then_tools[of ts "[]"] by simp

lemma no_fragments: "texts_before_tools []"
  by (simp add: texts_before_tools_def)

text \<open>
  Claim C3. In every call of \<^verbatim>\<open>stream_message\<close>, of the remote provider and of the
  subprocess provider, whatever the API or the child process delivers and whether or not
  the call ends with an exception: once a tool-use fragment has been yielded, no text
  fragment is yielded any more.
\<close>

theorem texts_precede_tool_uses:
  "texts_before_tools (fst (openai_stream_message loads api)) \<and>
   texts_before_tools (fst (claude_stream_message loads claude_path run))"
proof
  show "texts_before_tools (fst (openai_stream_message loads api))"
    by (auto simp: openai_stream_message_def texts_then_tools texts_alone no_fragments
        split: option.splits prod.splits)
  show "texts_before_tools (fst (claude_stream_message loads claude_path run))"
    by (auto simp: claude_stream_message_def texts_then_tools texts_alone no_fragments
        split: option.splits prod.splits)
qed

text \<open>
  The theorem on a stream of the API and on an output of the child process that both
  carry a \<^verbatim>\<open>read_file\<close> block: the fragments are the texts, then the invocation.
\<close>

theorem texts_precede_tool_uses_witness:
  "openai_stream_message sample_loads sample_api =
     ([Text ''I read. '', Text ''<read_file><path>a</path>'', Text ''</read_file>'',
       ToolUse \<lparr>tu_name = ''read_file'', tu_id = ''tool_read_file'',
                tu_input = [(''path'', PStr ''a'')]\<rparr>], None) \<and>
   claude_stream_message sample_loads ''claude'' sample_run =
     ([Text ''<read_file><path>a</path></read_file>'',
       ToolUse \<lparr>tu_name = ''read_file'', tu_id = ''tool_read_file'',
                tu_input = [(''path'', PStr ''a'')]\<rparr>], None) \<and>
   texts_before_tools (fst (openai_stream_message sample_loads sample_api)) \<and>
   texts_before_tools (fst (claude_stream_message sample_loads ''claude'' sample_run))"
proof -
  have p: "parse_tool_uses sample_loads ''<read_file><path>a</path></read_file>'' =
             ([\<lparr>tu_name = ''read_file'', tu_id = ''tool_read_file'',
                tu_input = [(''path'', PStr ''a'')]\<rparr>], None)"
    by (simp add: parse_tool_uses_def match_tag_def closing_tag_def is_word_def valid_tools_def
        decode_param_def strip_def is_space_def)
  have a: "openai_stream_message sample_loads sample_api =
     ([Text ''I read. '', Text ''<read_file><path>a</path>'', Text ''</read_file>'',
       ToolUse \<lparr>tu_name = ''read_file'', tu_id = ''tool_read_file'',
                tu_input = [(''path'', PStr ''a'')]\<rparr>], None)"
    by (simp add: openai_stream_message_def sample_api_def
        parse_tool_uses_def match_tag_def closing_tag_def is_word_def valid_tools_def
        decode_param_def strip_def is_space_def)
  let ?l1 = "''{\"type\":\"assistant\",\"message\":{\"content\":[{\"type\":\"text\",\"text\":\"<read_file><path>a</path></read_file>\"}]}}''"
  let ?l2 = "''{\"type\":\"result\"}''"
  have asc: "ascii (?l1 @ [CHR 0x0A])" "ascii (?l2 @ [CHR 0x0A])"
    by (simp_all add: ascii_def)
  have lim: "\<not> readline_limit < length (line_content (?l1 @ [CHR 0x0A]))"
    "\<not> readline_limit < length (line_content (?l2 @ [CHR 0x0A]))"
    by (simp_all add: readline_limit_def line_content_def)
  have st: "strip (?l1 @ [CHR 0x0A]) = ?l1" "strip (?l2 @ [CHR 0x0A]) = ?l2"
    by (simp_all add: strip_def is_space_def)
  have ld1: "sample_loads ?l1 =
      Inr (JObj [(''type'', JStr ''assistant''),
                      (''message'',
                       JObj [(''content'',
                              JArr [JObj [(''type'', JStr ''text''),
                                          (''text'', JStr ''<read_file><path>a</path></read_file>'')]])])])"
    and ld2: "sample_loads ?l2 = Inr (JObj [(''type'', JStr ''result'')])"
    by (simp_all add: sample_loads_def)
  have r: "read_stdout sample_loads (stdout_lines sample_run) [] =
             ([JObj [(''type'', JStr ''assistant''),
                      (''message'',
                       JObj [(''content'',
                              JArr [JObj [(''type'', JStr ''text''),
                                          (''text'', JStr ''<read_file><path>a</path></read_file>'')]])])],
               JObj [(''type'', JStr ''result'')]],
              [''<read_file><path>a</path></read_file>''], None)"
    unfolding sample_run_def
    by (simp add: lim decode_ascii[OF asc(1)] decode_ascii[OF asc(2)] st parse_chunk_def ld1 ld2
        del: append.simps)
  have b: "claude_stream_message sample_loads ''claude'' sample_run =
     ([Text ''<read_file><path>a</path></read_file>'',
       ToolUse \<lparr>tu_name = ''read_file'', tu_id = ''tool_read_file'',
                tu_input = [(''path'', PStr ''a'')]\<rparr>], None)"
  proof -
    have f: "spawn_error sample_run = None" "returncode sample_run = 0"
      by (simp_all add: sample_run_def)
    show ?thesis
      by (simp add: claude_stream_message_def r p f exit_check_def del: read_stdout.simps)
  qed
  from a b texts_precede_tool_uses[of sample_loads sample_api "''claude''" sample_run]
  show ?thesis by simp
qed

lemma within_limit: "length (line_content l) \<le> readline_limit \<Longrightarrow>
    (readline_limit < length (line_content l)) = False"
  by simp

text \<open>
  Claim C5 fails on the two lines that it names. \<^verbatim>\<open>{"partial":\<close> does not decode and
  is buffered, but the two lines together are \<^verbatim>\<open>{"partial":"ok":true}\<close>, which is not
  JSON either: the decoder rejects it, the text stays in the buffer, and at the end of
  the output no record has been decoded and nothing has been yielded.
\<close>

theorem split_lines_of_the_claim_counterexample:
  "sample_loads ''{\"partial\":'' = Inl JSONDecodeError \<and>
   sample_loads ''{\"partial\":\"ok\":true}'' = Inl JSONDecodeError \<and>
   read_stdout sample_loads [''{\"partial\":'' @ [CHR 0x0A], ''\"ok\":true}'' @ [CHR 0x0A]] [] =
     ([], [], None) \<and>
   claude_stream_message sample_loads ''claude''
     \<lparr>spawn_error = None,
      stdout_lines = [''{\"partial\":'' @ [CHR 0x0A], ''\"ok\":true}'' @ [CHR 0x0A]],
      returncode = 0, stderr_output = []\<rparr> = ([], None)"
proof -
  have asc: "ascii (''{\"partial\":'' @ [CHR 0x0A])" "ascii (''\"ok\":true}'' @ [CHR 0x0A])"
    by (simp_all add: ascii_def)
  have lim: "\<not> readline_limit < length (line_content (''{\"partial\":'' @ [CHR 0x0A]))"
    "\<not> readline_limit < length (line_content (''\"ok\":true}'' @ [CHR 0x0A]))"
    by (simp_all add: readline_limit_def line_content_def)
  have st: "strip (''{\"partial\":'' @ [CHR 0x0A]) = ''{\"partial\":''"
    "strip (''\"ok\":true}'' @ [CHR 0x0A]) = ''\"ok\":true}''"
    by (simp_all add: strip_def is_space_def)
  have l1: "sample_loads ''{\"partial\":'' = Inl JSONDecodeError"
    and l2: "sample_loads ''{\"partial\":\"ok\":true}'' = Inl JSONDecodeError"
    by (simp_all add: sample_loads_def not_deep_nesting)
  have r: "read_stdout sample_loads [''{\"partial\":'' @ [CHR 0x0A], ''\"ok\":true}'' @ [CHR 0x0A]] [] =
     ([], [], None)"
    using l1 l2
    by (simp add: lim decode_ascii[OF asc(1)] decode_ascii[OF asc(2)] st parse_chunk_def
        del: append.simps) simp
  have c: "claude_stream_message sample_loads ''claude''
     \<lparr>spawn_error = None,
      stdout_lines = [''{\"partial\":'' @ [CHR 0x0A], ''\"ok\":true}'' @ [CHR 0x0A]],
      returncode = 0, stderr_output = []\<rparr> = ([], None)"
    by (simp add: claude_stream_message_def r exit_check_def parse_tool_uses_def
        del: append.simps read_stdout.simps)
  from l1 l2 r c show ?thesis by blast
qed

text \<open>
  Claim C5, as amended. Take two consecutive output lines of the child process, ASCII
  and each within the limit of \<^verbatim>\<open>readline\<close>, of which the first (trimmed, not empty)
  is rejected by the decoder with a decode error and the two together (each trimmed,
  concatenated) decode to a record. The line reader keeps the first line as partial data
  and goes on with the next line; after the second line exactly one chunk has been
  decoded, the record, and the loop ends without an exception from decoding: the only
  exception it can end with is one of handling the record as an assistant message, and
  there is none when the record is not of that type.
\<close>

theorem split_record_is_buffered:
  assumes a1: "ascii l1" and a2: "ascii l2"
    and m1: "length (line_content l1) \<le> readline_limit"
    and m2: "length (line_content l2) \<le> readline_limit"
    and l1: "strip l1 \<noteq> []"
    and bad: "loads (strip l1) = Inl JSONDecodeError"
    and good: "loads (strip l1 @ strip l2) = Inr (JObj kv)"
  shows "read_stdout loads (l1 # rest) [] = read_stdout loads rest (strip l1) \<and>
         read_stdout loads [l1, l2] [] =
           ([JObj kv], fst (chunk_texts (JObj kv)), snd (chunk_texts (JObj kv))) \<and>
         (map_of kv ''type'' \<noteq> Some (JStr ''assistant'') \<longrightarrow>
            read_stdout loads [l1, l2] [] = ([JObj kv], [], None))"
proof -
  have n1: "l1 \<noteq> []" using l1 by (auto simp: strip_def)
  have first: "read_stdout loads (l1 # rest) [] = read_stdout loads rest (strip l1)" for rest
    using l1 n1 bad by (simp add: within_limit[OF m1] decode_ascii[OF a1] parse_chunk_def)
  have l2: "strip l2 \<noteq> []"
    using bad good by auto
  then have n2: "l2 \<noteq> []" by (auto simp: strip_def)
  obtain ts e where ct: "chunk_texts (JObj kv) = (ts, e)"
    by (cases "chunk_texts (JObj kv)")
  have "read_stdout loads [l2] (strip l1) = ([JObj kv], ts, e)"
    using l1 l2 n2 good ct
    by (cases e) (simp_all add: within_limit[OF m2] decode_ascii[OF a2] parse_chunk_def Let_def
        del: chunk_texts.simps)
  then have second: "read_stdout loads [l2] (strip l1) =
           ([JObj kv], fst (chunk_texts (JObj kv)), snd (chunk_texts (JObj kv)))"
    by (simp add: ct del: chunk_texts.simps)
  have both: "read_stdout loads [l1, l2] [] =
           ([JObj kv], fst (chunk_texts (JObj kv)), snd (chunk_texts (JObj kv)))"
    using first[of "[l2]"] second by (simp del: chunk_texts.simps read_stdout.simps)
  have plain: "map_of kv ''type'' \<noteq> Some (JStr ''assistant'') \<longrightarrow>
            read_stdout loads [l1, l2] [] = ([JObj kv], [], None)"
    by (simp add: both del: read_stdout.simps)
  from first both plain show ?thesis by blast
qed

text \<open>
  The theorem on the lines \<^verbatim>\<open>{"partial":\<close> and \<^verbatim>\<open>{"ok":true}}\<close>, each with its
  newline: nothing is decoded after the first, one record after the second.
\<close>

theorem split_record_is_buffered_witness:
  "ascii (''{\"partial\":'' @ [CHR 0x0A]) \<and> ascii (''{\"ok\":true}}'' @ [CHR 0x0A]) \<and>
   length (line_content (''{\"partial\":'' @ [CHR 0x0A])) \<le> readline_limit \<and>
   length (line_content (''{\"ok\":true}}'' @ [CHR 0x0A])) \<le> readline_limit \<and>
   strip (''{\"partial\":'' @ [CHR 0x0A]) = ''{\"partial\":'' \<and>
   strip (''{\"ok\":true}}'' @ [CHR 0x0A]) = ''{\"ok\":true}}'' \<and>
   sample_loads ''{\"partial\":'' = Inl JSONDecodeError \<and>
   sample_loads ''{\"partial\":{\"ok\":true}}'' = Inr (JObj [(''partial'', JObj [(''ok'', JBool True)])]) \<and>
   read_stdout sample_loads [''{\"partial\":'' @ [CHR 0x0A]] [] = ([], [], None) \<and>
   read_stdout sample_loads [''{\"partial\":'' @ [CHR 0x0A], ''{\"ok\":true}}'' @ [CHR 0x0A]] [] =
     ([JObj [(''partial'', JObj [(''ok'', JBool True)])]], [], None)"
proof -
  have asc: "ascii (''{\"partial\":'' @ [CHR 0x0A])" "ascii (''{\"ok\":true}}'' @ [CHR 0x0A])"
    by (simp_all add: ascii_def)
  have lim: "length (line_content (''{\"partial\":'' @ [CHR 0x0A])) \<le> readline_limit"
    "length (line_content (''{\"ok\":true}}'' @ [CHR 0x0A])) \<le> readline_limit"
    by (simp_all add: readline_limit_def line_content_def)
  have s1: "strip (''{\"partial\":'' @ [CHR 0x0A]) = ''{\"partial\":''"
    and s2: "strip (''{\"ok\":true}}'' @ [CHR 0x0A]) = ''{\"ok\":true}}''"
    by (simp_all add: strip_def is_space_def)
  have l1: "strip (''{\"partial\":'' @ [CHR 0x0A]) \<noteq> []" unfolding s1 by simp
  have bad': "sample_loads ''{\"partial\":'' = Inl JSONDecodeError"
    by (simp add: sample_loads_def not_deep_nesting)
  have good': "sample_loads ''{\"partial\":{\"ok\":true}}'' =
                Inr (JObj [(''partial'', JObj [(''ok'', JBool True)])])"
    by (simp add: sample_loads_def)
  have bad: "sample_loads (strip (''{\"partial\":'' @ [CHR 0x0A])) = Inl JSONDecodeError"
    unfolding s1 by (rule bad')
  have good: "sample_loads (strip (''{\"partial\":'' @ [CHR 0x0A]) @ strip (''{\"ok\":true}}'' @ [CHR 0x0A])) =
                Inr (JObj [(''partial'', JObj [(''ok'', JBool True)])])"
    unfolding s1 s2 using good' by simp
  note t = split_record_is_buffered[OF asc lim l1 bad good]
  have one: "read_stdout sample_loads [''{\"partial\":'' @ [CHR 0x0A]] [] = ([], [], None)"
    using t[of "[]"] by (simp del: read_stdout.simps append.simps) simp
  have two: "read_stdout sample_loads [''{\"partial\":'' @ [CHR 0x0A], ''{\"ok\":true}}'' @ [CHR 0x0A]] [] =
     ([JObj [(''partial'', JObj [(''ok'', JBool True)])]], [], None)"
    using t[of "[]"] by (simp del: read_stdout.simps append.simps)
  from asc lim s1 s2 bad' good' one two show ?thesis by blast
qed


section \<open>Facts about the loop of \<^verbatim>\<open>Task\<close>\<close>

lemma dispatched_append: "dispatched (xs @ ys) = dispatched xs @ dispatched ys"
  by (induction xs rule: dispatched.induct) simp_all

lemma call_modes_append: "call_modes (xs @ ys) = call_modes xs @ call_modes ys"
  by (induction xs rule: call_modes.induct) simp_all

lemma send_to_ui_eq:
  "send_to_ui env message_type content s =
     (None, s\<lparr>world := snd (env_send_json env (message_type, content) (world s)),
              trace := trace s @ [UiEmit message_type
                        (fst (env_send_json env (message_type, content) (world s)) = None)]\<rparr>)"
  by (cases "env_send_json env (message_type, content) (world s)")
     (auto simp: send_to_ui_def split: option.splits)

lemma execute_tool_unknown:
  assumes "tu_name tu \<notin> set task_tools"
  shows "execute_tool env tu s =
           (Inr (''Unknown tool: '' @ tu_name tu),
            snd (send_to_ui env ''tool'' (UiTool (tu_name tu) (tu_input tu)) s))"
  using assms by (simp add: execute_tool_def Let_def send_to_ui_eq)

lemma execute_tool_error:
  assumes "tu_name tu \<in> set task_tools"
    and "env_tool env (tu_name tu) (config_cwd s) (tu_input tu)
           (world (snd (send_to_ui env ''tool'' (UiTool (tu_name tu) (tu_input tu)) s))) = (Inl e, w)"
  shows "fst (execute_tool env tu s) = Inr (''Error: '' @ e)"
  using assms by (simp add: execute_tool_def Let_def send_to_ui_eq)

lemma execute_tool_returns:
  "\<exists>r s'. execute_tool env tu s = (Inr r, s') \<and> abort s' = abort s \<and>
           call_modes (trace s') = call_modes (trace s)"
  by (auto simp: execute_tool_def Let_def send_to_ui_eq call_modes_append
      split: prod.splits sum.splits)

lemma consume_returns:
  "\<exists>am' new s'. consume env fs am trs s = (Inr (am', trs @ new), s') \<and> abort s' = abort s \<and>
      call_modes (trace s') = call_modes (trace s) \<and>
      (list_all is_text fs \<longrightarrow> new = [] \<and> dispatched (trace s') = dispatched (trace s))"
proof (induction fs arbitrary: am trs s)
  case Nil
  show ?case by simp
next
  case (Cons f fs)
  show ?case
  proof (cases f)
    case (Text t)
    let ?s1 = "snd (send_to_ui env ''text'' (UiStr t) s)"
    from Cons.IH[of "am @ t" trs ?s1] obtain am' new s' where
      h: "consume env fs (am @ t) trs ?s1 = (Inr (am', trs @ new), s')" "abort s' = abort ?s1"
         "call_modes (trace s') = call_modes (trace ?s1)"
         "list_all is_text fs \<longrightarrow> new = [] \<and> dispatched (trace s') = dispatched (trace ?s1)"
      by blast
    have "consume env (f # fs) am trs s = (Inr (am', trs @ new), s')"
      using h(1) by (simp add: Text send_to_ui_eq)
    moreover have "abort s' = abort s" "call_modes (trace s') = call_modes (trace s)"
      using h(2,3) by (simp_all add: send_to_ui_eq call_modes_append)
    moreover have "list_all is_text (f # fs) \<longrightarrow> new = [] \<and> dispatched (trace s') = dispatched (trace s)"
      using h(4) by (simp add: Text send_to_ui_eq dispatched_append)
    ultimately show ?thesis by blast
  next
    case (ToolUse tu)
    from execute_tool_returns[of env tu s] obtain r s1 where
      e: "execute_tool env tu s = (Inr r, s1)" "abort s1 = abort s"
         "call_modes (trace s1) = call_modes (trace s)"
      by blast
    from Cons.IH[of am "trs @ [(tu_id tu, r)]" s1] obtain am' new s' where
      h: "consume env fs am (trs @ [(tu_id tu, r)]) s1 = (Inr (am', (trs @ [(tu_id tu, r)]) @ new), s')"
         "abort s' = abort s1" "call_modes (trace s') = call_modes (trace s1)"
      by blast
    have "consume env (f # fs) am trs s = (Inr (am', trs @ ((tu_id tu, r) # new)), s')"
      using h(1) e(1) by (simp add: ToolUse)
    moreover have "abort s' = abort s" "call_modes (trace s') = call_modes (trace s)"
      using h(2,3) e(2,3) by simp_all
    moreover have "\<not> list_all is_text (f # fs)" by (simp add: ToolUse)
    ultimately show ?thesis by blast
  qed
qed

lemma task_request_keeps:
  "task_request env u s = (r, s3) \<Longrightarrow>
     abort s3 = abort s \<and> dispatched (trace s3) = dispatched (trace s) \<and>
     (\<forall>a. r = Inr a \<longrightarrow> call_modes (trace s3) = call_modes (trace s) @ [ACT])"
  by (auto simp: task_request_def task_build_context_def ai_client_stream_message_def Let_def
      dispatched_append call_modes_append split: prod.splits sum.splits)

lemma task_iteration_continues:
  assumes "task_request env u s = (Inr (frags, None), s3)"
  shows "\<exists>u' s'. task_iteration env u s = Continue u' s' \<and> abort s' = abort s \<and>
           call_modes (trace s') = call_modes (trace s) @ [ACT] \<and>
           (list_all is_text frags \<longrightarrow> u' = task_nudge \<and> dispatched (trace s') = dispatched (trace s))"
proof -
  from consume_returns[of env frags "[]" "[]" s3] obtain am' new s4 where
    c: "consume env frags [] [] s3 = (Inr (am', new), s4)" "abort s4 = abort s3"
       "call_modes (trace s4) = call_modes (trace s3)"
       "list_all is_text frags \<longrightarrow> new = [] \<and> dispatched (trace s4) = dispatched (trace s3)"
    by auto
  from task_request_keeps[OF assms] have
    k: "abort s3 = abort s" "dispatched (trace s3) = dispatched (trace s)"
       "call_modes (trace s3) = call_modes (trace s) @ [ACT]"
    by simp_all
  show ?thesis
    using assms c k by (auto simp: task_iteration_def Let_def)
qed

text \<open>
  Claim C10. Whatever the websocket does with a message of any type and content,
  \<^verbatim>\<open>send_to_ui\<close> raises nothing, and it leaves the abort flag and the conversation as
  they are. So \<^verbatim>\<open>start\<close> enters the loop also when the status message cannot be
  sent, and a pass of the loop whose context is built and whose stream ends normally
  always ends with the next user content, with the abort flag unchanged: no failure of
  the websocket ends the task.
\<close>

theorem sink_failure_is_swallowed:
  "fst (send_to_ui env message_type content s) = None \<and>
   abort (snd (send_to_ui env message_type content s)) = abort s \<and>
   conversation_history (snd (send_to_ui env message_type content s)) = conversation_history s \<and>
   task_start env n user_message s =
     task_loop env n (''<task>'' @ nl @ user_message @ nl @ ''</task>'')
       (snd (send_to_ui env ''status'' (UiStr ''Task started'') s)) \<and>
   (\<forall>frags s3. task_request env u s = (Inr (frags, None), s3) \<longrightarrow>
      (\<exists>u' s'. task_iteration env u s = Continue u' s' \<and> abort s' = abort s))"
proof -
  have "\<forall>frags s3. task_request env u s = (Inr (frags, None), s3) \<longrightarrow>
      (\<exists>u' s'. task_iteration env u s = Continue u' s' \<and> abort s' = abort s)"
    using task_iteration_continues by blast
  then show ?thesis
    by (simp add: send_to_ui_eq task_start_def)
qed

text \<open>The theorem with a websocket that is closed: every send fails, and the pass goes on.\<close>

theorem sink_failure_is_swallowed_witness:
  "fst (send_to_ui sample_env ''text'' (UiStr ''Just '') (sample_task text_only_world)) = None \<and>
   trace (snd (send_to_ui sample_env ''text'' (UiStr ''Just '') (sample_task text_only_world))) =
     [UiEmit ''text'' False] \<and>
   fst (task_request sample_env ''go'' (sample_task text_only_world)) =
     Inr ([Text ''Just '', Text ''text.''], None) \<and>
   (\<exists>u' s'. task_iteration sample_env ''go'' (sample_task text_only_world) = Continue u' s' \<and>
      abort s' = abort (sample_task text_only_world))"
proof -
  obtain s3 where r: "task_request sample_env ''go'' (sample_task text_only_world) =
      (Inr ([Text ''Just '', Text ''text.''], None), s3)"
    by (simp add: task_request_def task_build_context_def ai_client_stream_message_def
        sample_env_def sample_task_def text_only_world_def Let_def)
  from sink_failure_is_swallowed[of sample_env "''text''" "UiStr ''Just ''"
      "sample_task text_only_world" 0 "''go''" "''go''"] r
  show ?thesis
    by (simp add: send_to_ui_def sample_env_def sample_task_def text_only_world_def)
qed

section \<open>Facts about the loop of \<^verbatim>\<open>SimpleAgent\<close>\<close>

lemma collect_texts:
  "list_all is_text frags \<Longrightarrow> snd (collect frags am tus) = tus"
  by (induction frags am tus rule: collect.induct) simp_all

lemma agent_input_eq:
  "agent_input env s =
     (fst (env_input env (agent_world s)),
      s\<lparr>agent_world := snd (env_input env (agent_world s)),
        agent_trace := agent_trace s @ [Prompted]\<rparr>)"
  by (simp add: agent_input_def split: prod.splits)

lemma agent_request_keeps:
  "agent_request env u s = (r, s3) \<Longrightarrow>
     mode s3 = mode s \<and> working_dir s3 = working_dir s \<and>
     agent_trace s3 = agent_trace s @ [ProviderCall (Some (working_dir s)) (mode s)]"
  by (auto simp: agent_request_def agent_build_context_def ai_client_stream_message_def Let_def
      split: prod.splits)

lemma iteration_without_invocation:
  "(\<not> abort s \<and> task_request env u s = (Inr (frags, None), s3) \<and> list_all is_text frags \<longrightarrow>
      (\<exists>s'. task_iteration env u s = Continue task_nudge s' \<and>
            dispatched (trace s') = dispatched (trace s) \<and> \<not> abort s' \<and>
            (\<forall>n. task_loop env (Suc n) u s = task_loop env n task_nudge s'))) \<and>
   (agent_request env u a = ((frags, None), a3) \<and> list_all is_text frags \<longrightarrow>
      (\<exists>a'. agent_iteration env u a = AContinue agent_nudge a' \<and>
            dispatched (agent_trace a') = dispatched (agent_trace a) \<and>
            (\<forall>n. agent_task_loop env (Suc n) u a = agent_task_loop env n agent_nudge a')))"
proof (intro conjI impI)
  assume h: "\<not> abort s \<and> task_request env u s = (Inr (frags, None), s3) \<and> list_all is_text frags"
  then obtain u' s' where
    t: "task_iteration env u s = Continue u' s'" "abort s' = abort s"
       "list_all is_text frags \<longrightarrow> u' = task_nudge \<and> dispatched (trace s') = dispatched (trace s)"
    using task_iteration_continues[of env u s frags s3] by blast
  with h show "\<exists>s'. task_iteration env u s = Continue task_nudge s' \<and>
            dispatched (trace s') = dispatched (trace s) \<and> \<not> abort s' \<and>
            (\<forall>n. task_loop env (Suc n) u s = task_loop env n task_nudge s')"
    by auto
next
  assume h: "agent_request env u a = ((frags, None), a3) \<and> list_all is_text frags"
  obtain am tus where c: "collect frags [] [] = (am, tus)" by (cases "collect frags [] []")
  with h collect_texts[of frags "[]" "[]"] have tus: "tus = []" by simp
  let ?a' = "a3\<lparr>agent_history := agent_history a3 @ [(Assistant, am)]\<rparr>"
  have it: "agent_iteration env u a = AContinue agent_nudge ?a'"
    using h c tus by (simp add: agent_iteration_def)
  moreover have "dispatched (agent_trace ?a') = dispatched (agent_trace a)"
    using h agent_request_keeps[of env u a "(frags, None)" a3] by (simp add: dispatched_append)
  ultimately show "\<exists>a'. agent_iteration env u a = AContinue agent_nudge a' \<and>
            dispatched (agent_trace a') = dispatched (agent_trace a) \<and>
            (\<forall>n. agent_task_loop env (Suc n) u a = agent_task_loop env n agent_nudge a')"
    by auto
qed


text \<open>
  Claim C9. In both loops, a pass in which the stream of the provider ends normally and
  has yielded no invocation calls no tool, sets the next user content to the fixed text
  that asks for a tool or for \<^verbatim>\<open>attempt_completion\<close> (the two loops word it differently), and does not end the loop: the loop
  goes on with that text (in \<^verbatim>\<open>Task\<close> the abort flag is still unset).
\<close>

theorem no_invocation_nudges:
  "(\<not> abort s \<and> task_request env u s = (Inr (frags, None), s3) \<and> list_all is_text frags \<longrightarrow>
      (\<exists>s'. task_iteration env u s = Continue ''Please use a tool to complete the task, or call attempt_completion.'' s' \<and>
            dispatched (trace s') = dispatched (trace s) \<and> \<not> abort s' \<and>
            (\<forall>n. task_loop env (Suc n) u s = task_loop env n ''Please use a tool to complete the task, or call attempt_completion.'' s'))) \<and>
   (agent_request env u a = ((frags, None), a3) \<and> list_all is_text frags \<longrightarrow>
      (\<exists>a'. agent_iteration env u a = AContinue ''Please use a tool to complete the task, or call attempt_completion when done.'' a' \<and>
            dispatched (agent_trace a') = dispatched (agent_trace a) \<and>
            (\<forall>n. agent_task_loop env (Suc n) u a = agent_task_loop env n ''Please use a tool to complete the task, or call attempt_completion when done.'' a')))"
  using iteration_without_invocation[of s env u frags s3 a a3]
  unfolding task_nudge_def agent_nudge_def .

text \<open>
  The theorem on a provider that answers with two text fragments: both loops go on with
  the nudge, and the second pass of \<^verbatim>\<open>Task\<close> calls the provider again.
\<close>

theorem no_invocation_nudges_witness:
  "fst (task_request sample_env ''go'' (sample_task text_only_world)) =
     Inr ([Text ''Just '', Text ''text.''], None) \<and>
   fst (agent_request sample_env ''go'' (sample_agent ACT text_only_world)) =
     ([Text ''Just '', Text ''text.''], None) \<and>
   (\<exists>s'. task_iteration sample_env ''go'' (sample_task text_only_world) = Continue ''Please use a tool to complete the task, or call attempt_completion.'' s' \<and>
         dispatched (trace s') = [] \<and>
         task_loop sample_env 2 ''go'' (sample_task text_only_world) =
           task_loop sample_env 1 ''Please use a tool to complete the task, or call attempt_completion.'' s') \<and>
   (\<exists>a'. agent_iteration sample_env ''go'' (sample_agent ACT text_only_world) =
           AContinue ''Please use a tool to complete the task, or call attempt_completion when done.'' a' \<and>
         dispatched (agent_trace a') = [] \<and>
         agent_task_loop sample_env 2 ''go'' (sample_agent ACT text_only_world) =
           agent_task_loop sample_env 1 ''Please use a tool to complete the task, or call attempt_completion when done.'' a') \<and>
   call_modes (trace (task_final (task_loop sample_env 2 ''go'' (sample_task text_only_world)))) =
     [ACT, ACT]"
proof -
  obtain s3 where r: "task_request sample_env ''go'' (sample_task text_only_world) =
      (Inr ([Text ''Just '', Text ''text.''], None), s3)"
    by (simp add: task_request_def task_build_context_def ai_client_stream_message_def
        sample_env_def sample_task_def text_only_world_def Let_def)
  obtain a3 where q: "agent_request sample_env ''go'' (sample_agent ACT text_only_world) =
      (([Text ''Just '', Text ''text.''], None), a3)"
    by (simp add: agent_request_def agent_build_context_def ai_client_stream_message_def
        sample_env_def sample_agent_def new_agent_def text_only_world_def Let_def)
  have na: "\<not> abort (sample_task text_only_world)" by (simp add: sample_task_def)
  have e: "dispatched (trace (sample_task text_only_world)) = []"
    "dispatched (agent_trace (sample_agent ACT text_only_world)) = []"
    by (simp_all add: sample_task_def sample_agent_def new_agent_def)
  have cm: "call_modes (trace (task_final (task_loop sample_env 2 ''go'' (sample_task text_only_world)))) =
     [ACT, ACT]"
    by (simp add: numeral_2_eq_2 task_iteration_def task_request_def task_build_context_def
        ai_client_stream_message_def sample_env_def sample_task_def text_only_world_def
        send_to_ui_def Let_def)
  from no_invocation_nudges[of "sample_task text_only_world" sample_env "''go''"
      "[Text ''Just '', Text ''text.'']" s3 "sample_agent ACT text_only_world" a3] r q na
  obtain s' a' where
    ts: "task_iteration sample_env ''go'' (sample_task text_only_world) = Continue ''Please use a tool to complete the task, or call attempt_completion.'' s'"
        "dispatched (trace s') = dispatched (trace (sample_task text_only_world))"
        "\<forall>n. task_loop sample_env (Suc n) ''go'' (sample_task text_only_world) =
             task_loop sample_env n ''Please use a tool to complete the task, or call attempt_completion.'' s'"
    and as: "agent_iteration sample_env ''go'' (sample_agent ACT text_only_world) =
               AContinue ''Please use a tool to complete the task, or call attempt_completion when done.'' a'"
        "dispatched (agent_trace a') = dispatched (agent_trace (sample_agent ACT text_only_world))"
        "\<forall>n. agent_task_loop sample_env (Suc n) ''go'' (sample_agent ACT text_only_world) =
             agent_task_loop sample_env n ''Please use a tool to complete the task, or call attempt_completion when done.'' a'"
    by auto
  have t2: "task_loop sample_env 2 ''go'' (sample_task text_only_world) =
              task_loop sample_env 1 ''Please use a tool to complete the task, or call attempt_completion.'' s'"
    using ts(3)[rule_format, of 1] by (simp only: Suc_1)
  have a2: "agent_task_loop sample_env 2 ''go'' (sample_agent ACT text_only_world) =
              agent_task_loop sample_env 1 ''Please use a tool to complete the task, or call attempt_completion when done.'' a'"
    using as(3)[rule_format, of 1] by (simp only: Suc_1)
  have A: "\<exists>s'. task_iteration sample_env ''go'' (sample_task text_only_world) = Continue ''Please use a tool to complete the task, or call attempt_completion.'' s' \<and>
         dispatched (trace s') = [] \<and>
         task_loop sample_env 2 ''go'' (sample_task text_only_world) =
           task_loop sample_env 1 ''Please use a tool to complete the task, or call attempt_completion.'' s'"
    using ts(1) ts(2)[unfolded e(1)] t2 by blast
  have B: "\<exists>a'. agent_iteration sample_env ''go'' (sample_agent ACT text_only_world) =
           AContinue ''Please use a tool to complete the task, or call attempt_completion when done.'' a' \<and>
         dispatched (agent_trace a') = [] \<and>
         agent_task_loop sample_env 2 ''go'' (sample_agent ACT text_only_world) =
           agent_task_loop sample_env 1 ''Please use a tool to complete the task, or call attempt_completion when done.'' a'"
    using as(1) as(2)[unfolded e(2)] a2 by blast
  have R: "fst (task_request sample_env ''go'' (sample_task text_only_world)) =
     Inr ([Text ''Just '', Text ''text.''], None)" by (simp only: r fst_conv)
  have Q: "fst (agent_request sample_env ''go'' (sample_agent ACT text_only_world)) =
     ([Text ''Just '', Text ''text.''], None)" by (simp only: q fst_conv)
  from R Q A B cm show ?thesis by blast
qed


section \<open>Facts about the batch loop of \<^verbatim>\<open>SimpleAgent\<close>\<close>

lemma sample_console: "ascii_console sample_env"
  by (auto simp: ascii_console_def sample_env_def ascii_def split: list.splits)

lemma agent_input_keeps:
  "agent_input env s = (r, s1) \<Longrightarrow>
     mode s1 = mode s \<and> working_dir s1 = working_dir s \<and>
     call_modes (agent_trace s1) = call_modes (agent_trace s) \<and>
     dispatched (agent_trace s1) = dispatched (agent_trace s)"
  by (auto simp: agent_input_def call_modes_append dispatched_append split: prod.splits)

lemma check_and_execute_rejected:
  "mode_rejects (mode s) (tu_name tu) \<Longrightarrow>
     check_and_execute env tu trs s = (Next (trs @ [(tu_id tu, rejection (tu_name tu))]), s)"
  by (simp add: check_and_execute_def)

lemma check_and_execute_unknown:
  "\<not> mode_rejects (mode s) (tu_name tu) \<Longrightarrow> tu_name tu \<noteq> ''plan_mode_respond'' \<Longrightarrow>
   tu_name tu \<notin> set agent_tools \<Longrightarrow>
     check_and_execute env tu trs s =
       (Next (trs @ [(tu_id tu, ''Unknown tool: '' @ tu_name tu)]), s)"
  by (simp add: check_and_execute_def)

lemma agent_tool_not_plan_respond:
  "n \<in> set agent_tools \<Longrightarrow> n \<noteq> ''plan_mode_respond''"
  by (auto simp: agent_tools_def)

lemma check_and_execute_error:
  "\<not> mode_rejects (mode s) (tu_name tu) \<Longrightarrow> tu_name tu \<in> set agent_tools \<Longrightarrow>
   env_tool env (tu_name tu) (working_dir s) (tu_input tu) (agent_world s) = (Inl e, w) \<Longrightarrow>
     check_and_execute env tu trs s =
       (Next (trs @ [(tu_id tu, ''Error: '' @ e)]),
        s\<lparr>agent_world := w,
          agent_trace := agent_trace s @ [Dispatch (tu_name tu) (tu_input tu)]\<rparr>)"
  using agent_tool_not_plan_respond[of "tu_name tu"]
  by (simp add: check_and_execute_def)


lemma check_and_execute_keeps:
  "check_and_execute env tu trs s = (b, s') \<Longrightarrow>
     call_modes (agent_trace s') = call_modes (agent_trace s) \<and>
     (mode s' = mode s \<or> mode s' = ACT) \<and>
     (\<forall>trs'. b = Next trs' \<longrightarrow> (\<exists>r. trs' = trs @ [(tu_id tu, r)]))"
  by (auto simp: check_and_execute_def Let_def agent_input_eq call_modes_append
      split: if_splits prod.splits sum.splits)

lemma process_tool_keeps:
  assumes p: "process_tool env tu trs s = (b, s')"
  shows "call_modes (agent_trace s') = call_modes (agent_trace s) \<and>
     (mode s' = mode s \<or> mode s' = ACT) \<and>
     (\<forall>trs'. b = Next trs' \<longrightarrow> (\<exists>r. trs' = trs @ [(tu_id tu, r)]))"
proof (cases "tu_name tu \<in> set immediate_tools")
  case True
  with p have "check_and_execute env tu trs s = (b, s')" by (simp add: process_tool_def)
  from check_and_execute_keeps[OF this] show ?thesis .
next
  case False
  obtain r s1 where ai: "agent_input env s = (r, s1)" by (cases "agent_input env s")
  note k = agent_input_keeps[OF ai]
  show ?thesis
  proof (cases r)
    case (Inl e)
    with p False ai k show ?thesis by (auto simp: process_tool_def)
  next
    case (Inr line)
    show ?thesis
    proof (cases "strip line = []")
      case True
      with p False ai Inr have "check_and_execute env tu trs s1 = (b, s')"
        by (simp add: process_tool_def)
      from check_and_execute_keeps[OF this] k show ?thesis by simp
    next
      case nonblank: False
      with p False ai Inr k show ?thesis by (auto simp: process_tool_def)
    qed
  qed
qed

lemma run_tools_keeps:
  "run_tools env tus trs s = (b, s') \<Longrightarrow>
     call_modes (agent_trace s') = call_modes (agent_trace s) \<and>
     (mode s' = mode s \<or> mode s' = ACT) \<and>
     (\<forall>trs'. b = Next trs' \<longrightarrow> (\<exists>new. trs' = trs @ new \<and> length new = length tus))"
proof (induction tus arbitrary: trs s)
  case Nil
  then show ?case by auto
next
  case (Cons tu tus)
  obtain b1 s1 where p: "process_tool env tu trs s = (b1, s1)"
    by (cases "process_tool env tu trs s")
  note k = process_tool_keeps[OF p]
  show ?case
  proof (cases b1)
    case (Next trs1)
    with p Cons.prems have r: "run_tools env tus trs1 s1 = (b, s')" by simp
    from k Next obtain r1 where trs1: "trs1 = trs @ [(tu_id tu, r1)]" by auto
    from Cons.IH[OF r] k trs1 show ?thesis by auto
  next
    case (Break f)
    with p Cons.prems k show ?thesis by auto
  next
    case (Return r)
    with p Cons.prems k show ?thesis by auto
  next
    case (Raise e)
    with p Cons.prems k show ?thesis by auto
  qed
qed

lemma run_tools_append:
  "run_tools env (pre @ post) trs s =
     (case run_tools env pre trs s of
        (Next trs1, s1) \<Rightarrow> run_tools env post trs1 s1
      | (Break f, s1) \<Rightarrow> (Break f, s1)
      | (Return r, s1) \<Rightarrow> (Return r, s1)
      | (Raise e, s1) \<Rightarrow> (Raise e, s1))"
  by (induction pre arbitrary: trs s) (auto split: prod.splits body_end.splits)




text \<open>
  The loop behind the websocket, for comparison: it dispatches the three invocations of
  the same batch and calls the provider again.
\<close>

lemma task_loop_goes_on_after_completion:
  "dispatched (trace (task_final
      (task_loop sample_env 2 ''go'' (sample_task (completion_world []))))) =
     [''write_to_file'', ''attempt_completion'', ''search_files''] \<and>
   call_modes (trace (task_final
      (task_loop sample_env 2 ''go'' (sample_task (completion_world []))))) = [ACT, ACT]"
  by (simp add: numeral_2_eq_2 task_iteration_def task_request_def task_build_context_def
      ai_client_stream_message_def sample_env_def sample_task_def completion_world_def
      send_to_ui_def execute_tool_def task_tools_def tool_call_def sample_tool_def Let_def)


text \<open>
  Claim C2, as amended. The mode policy: PLAN does not allow \<^verbatim>\<open>write_to_file\<close>, ACT
  allows \<^verbatim>\<open>read_file\<close> and \<^verbatim>\<open>write_to_file\<close>, and the only calls that are not
  allowed are \<^verbatim>\<open>write_to_file\<close> and \<^verbatim>\<open>attempt_completion\<close> in PLAN. In the console
  loop, on a console that delivers ASCII lines, for an invocation that the policy does
  not allow: the mode check, once reached, calls no tool, appends under the id of the
  invocation the text \<^verbatim>\<open>Error: <name> is not available in PLAN mode. Use
  plan_mode_respond to present your plan first.\<close> and leaves the state as it is; however
  the body of the loop ends for this invocation, no tool has been called. For
  \<^verbatim>\<open>attempt_completion\<close> the check is reached at once: the batch goes on with the next
  invocation, and a pass whose batch is this invocation alone ends with the rejection
  as the next user content and the loop goes on with it, in the same mode. For
  \<^verbatim>\<open>write_to_file\<close> the check is reached when the line typed at the prompt for an
  interruption is blank, and then the batch goes on in the same way.
\<close>

theorem mode_policy_rejection:
  "\<not> allowed PLAN ''write_to_file'' \<and> allowed ACT ''read_file'' \<and> allowed ACT ''write_to_file'' \<and>
   (\<forall>m n. allowed m n = (\<not> (m = PLAN \<and> (n = ''write_to_file'' \<or> n = ''attempt_completion'')))) \<and>
   (ascii_console env \<and> \<not> allowed (mode s) (tu_name tu) \<longrightarrow>
      check_and_execute env tu trs s =
        (Next (trs @ [(tu_id tu, ''Error: '' @ tu_name tu @ '' is not available in PLAN mode. Use plan_mode_respond to present your plan first.'')]), s) \<and>
      dispatched (agent_trace (snd (process_tool env tu trs s))) = dispatched (agent_trace s) \<and>
      (tu_name tu = ''attempt_completion'' \<longrightarrow>
         process_tool env tu trs s =
           (Next (trs @ [(tu_id tu, ''Error: '' @ tu_name tu @ '' is not available in PLAN mode. Use plan_mode_respond to present your plan first.'')]), s) \<and>
         run_tools env (tu # rest) trs s =
           run_tools env rest (trs @ [(tu_id tu, ''Error: '' @ tu_name tu @ '' is not available in PLAN mode. Use plan_mode_respond to present your plan first.'')]) s) \<and>
      (\<forall>line s1. tu_name tu = ''write_to_file'' \<and> agent_input env s = (Inr line, s1) \<and>
                 strip line = [] \<longrightarrow>
         process_tool env tu trs s =
           (Next (trs @ [(tu_id tu, ''Error: '' @ tu_name tu @ '' is not available in PLAN mode. Use plan_mode_respond to present your plan first.'')]), s1) \<and>
         run_tools env (tu # rest) trs s =
           run_tools env rest (trs @ [(tu_id tu, ''Error: '' @ tu_name tu @ '' is not available in PLAN mode. Use plan_mode_respond to present your plan first.'')]) s1) \<and>
      (\<forall>frags s3 am. tu_name tu = ''attempt_completion'' \<and>
                 agent_request env u s = ((frags, None), s3) \<and>
                 collect frags [] [] = (am, [tu]) \<longrightarrow>
         (\<exists>s4. agent_iteration env u s =
                 AContinue (''['' @ tu_id tu @ ''] Result: '' @ ''Error: '' @ tu_name tu @ '' is not available in PLAN mode. Use plan_mode_respond to present your plan first.'') s4 \<and>
               mode s4 = mode s \<and>
               (\<forall>n. agent_task_loop env (Suc n) u s =
                    agent_task_loop env n
                      (''['' @ tu_id tu @ ''] Result: '' @ ''Error: '' @ tu_name tu @ '' is not available in PLAN mode. Use plan_mode_respond to present your plan first.'') s4))))"
proof -
  have policy: "\<not> allowed PLAN ''write_to_file'' \<and> allowed ACT ''read_file'' \<and> allowed ACT ''write_to_file'' \<and>
   (\<forall>m n. allowed m n = (\<not> (m = PLAN \<and> (n = ''write_to_file'' \<or> n = ''attempt_completion''))))"
  proof -
    have "allowed m n = (\<not> (m = PLAN \<and> (n = ''write_to_file'' \<or> n = ''attempt_completion'')))"
      for m n
      by (cases m) (auto simp: allowed_def mode_rejects_def act_only_tools_def)
    then show ?thesis by blast
  qed
  have body: "check_and_execute env tu trs s =
        (Next (trs @ [(tu_id tu, ''Error: '' @ tu_name tu @ '' is not available in PLAN mode. Use plan_mode_respond to present your plan first.'')]), s) \<and>
      dispatched (agent_trace (snd (process_tool env tu trs s))) = dispatched (agent_trace s) \<and>
      (tu_name tu = ''attempt_completion'' \<longrightarrow>
         process_tool env tu trs s =
           (Next (trs @ [(tu_id tu, ''Error: '' @ tu_name tu @ '' is not available in PLAN mode. Use plan_mode_respond to present your plan first.'')]), s) \<and>
         run_tools env (tu # rest) trs s =
           run_tools env rest (trs @ [(tu_id tu, ''Error: '' @ tu_name tu @ '' is not available in PLAN mode. Use plan_mode_respond to present your plan first.'')]) s) \<and>
      (\<forall>line s1. tu_name tu = ''write_to_file'' \<and> agent_input env s = (Inr line, s1) \<and>
                 strip line = [] \<longrightarrow>
         process_tool env tu trs s =
           (Next (trs @ [(tu_id tu, ''Error: '' @ tu_name tu @ '' is not available in PLAN mode. Use plan_mode_respond to present your plan first.'')]), s1) \<and>
         run_tools env (tu # rest) trs s =
           run_tools env rest (trs @ [(tu_id tu, ''Error: '' @ tu_name tu @ '' is not available in PLAN mode. Use plan_mode_respond to present your plan first.'')]) s1) \<and>
      (\<forall>frags s3 am. tu_name tu = ''attempt_completion'' \<and>
                 agent_request env u s = ((frags, None), s3) \<and>
                 collect frags [] [] = (am, [tu]) \<longrightarrow>
         (\<exists>s4. agent_iteration env u s =
                 AContinue (''['' @ tu_id tu @ ''] Result: '' @ ''Error: '' @ tu_name tu @ '' is not available in PLAN mode. Use plan_mode_respond to present your plan first.'') s4 \<and>
               mode s4 = mode s \<and>
               (\<forall>n. agent_task_loop env (Suc n) u s =
                    agent_task_loop env n
                      (''['' @ tu_id tu @ ''] Result: '' @ ''Error: '' @ tu_name tu @ '' is not available in PLAN mode. Use plan_mode_respond to present your plan first.'') s4)))"
    if "\<not> allowed (mode s) (tu_name tu)"
  proof -
    from that have rej: "mode_rejects (mode s) (tu_name tu)" by (simp add: allowed_def)
    note c = check_and_execute_rejected[OF rej, of env trs, unfolded rejection_def]
    have d: "dispatched (agent_trace (snd (process_tool env tu trs s))) = dispatched (agent_trace s)"
    proof (cases "tu_name tu \<in> set immediate_tools")
      case True
      then show ?thesis using c by (simp add: process_tool_def)
    next
      case False
      obtain r s1 where ai: "agent_input env s = (r, s1)" by (cases "agent_input env s")
      note k = agent_input_keeps[OF ai]
      from k rej have "mode_rejects (mode s1) (tu_name tu)" by simp
      note c1 = check_and_execute_rejected[OF this, of env trs]
      show ?thesis using False ai k c1
        by (cases r) (simp_all add: process_tool_def)
    qed
    have i: "tu_name tu = ''attempt_completion'' \<longrightarrow>
         process_tool env tu trs s =
           (Next (trs @ [(tu_id tu, ''Error: '' @ tu_name tu @ '' is not available in PLAN mode. Use plan_mode_respond to present your plan first.'')]), s) \<and>
         run_tools env (tu # rest) trs s =
           run_tools env rest (trs @ [(tu_id tu, ''Error: '' @ tu_name tu @ '' is not available in PLAN mode. Use plan_mode_respond to present your plan first.'')]) s"
      using c by (simp add: process_tool_def immediate_tools_def)
    have p: "\<forall>line s1. tu_name tu = ''write_to_file'' \<and> agent_input env s = (Inr line, s1) \<and>
                 strip line = [] \<longrightarrow>
         process_tool env tu trs s =
           (Next (trs @ [(tu_id tu, ''Error: '' @ tu_name tu @ '' is not available in PLAN mode. Use plan_mode_respond to present your plan first.'')]), s1) \<and>
         run_tools env (tu # rest) trs s =
           run_tools env rest (trs @ [(tu_id tu, ''Error: '' @ tu_name tu @ '' is not available in PLAN mode. Use plan_mode_respond to present your plan first.'')]) s1"
    proof (intro allI impI)
      fix line s1
      assume h: "tu_name tu = ''write_to_file'' \<and> agent_input env s = (Inr line, s1) \<and> strip line = []"
      from agent_input_keeps[of env s "Inr line" s1] h rej
      have "mode_rejects (mode s1) (tu_name tu)" by simp
      note c1 = check_and_execute_rejected[OF this, of env trs, unfolded rejection_def]
      show "process_tool env tu trs s =
           (Next (trs @ [(tu_id tu, ''Error: '' @ tu_name tu @ '' is not available in PLAN mode. Use plan_mode_respond to present your plan first.'')]), s1) \<and>
         run_tools env (tu # rest) trs s =
           run_tools env rest (trs @ [(tu_id tu, ''Error: '' @ tu_name tu @ '' is not available in PLAN mode. Use plan_mode_respond to present your plan first.'')]) s1"
        using h c1 by (simp add: process_tool_def immediate_tools_def)
    qed
    have q: "\<forall>frags s3 am. tu_name tu = ''attempt_completion'' \<and>
                 agent_request env u s = ((frags, None), s3) \<and>
                 collect frags [] [] = (am, [tu]) \<longrightarrow>
         (\<exists>s4. agent_iteration env u s =
                 AContinue (''['' @ tu_id tu @ ''] Result: '' @ ''Error: '' @ tu_name tu @ '' is not available in PLAN mode. Use plan_mode_respond to present your plan first.'') s4 \<and>
               mode s4 = mode s \<and>
               (\<forall>n. agent_task_loop env (Suc n) u s =
                    agent_task_loop env n
                      (''['' @ tu_id tu @ ''] Result: '' @ ''Error: '' @ tu_name tu @ '' is not available in PLAN mode. Use plan_mode_respond to present your plan first.'') s4))"
    proof (intro allI impI)
      fix frags s3 am
      assume h: "tu_name tu = ''attempt_completion'' \<and>
                 agent_request env u s = ((frags, None), s3) \<and>
                 collect frags [] [] = (am, [tu])"
      let ?s4 = "s3\<lparr>agent_history := agent_history s3 @ [(Assistant, am)]\<rparr>"
      from h have req: "agent_request env u s = ((frags, None), s3)" by simp
      from agent_request_keeps[OF req] have m3: "mode s3 = mode s" by simp
      with rej have "mode_rejects (mode ?s4) (tu_name tu)" by simp
      note c4 = check_and_execute_rejected[OF this, of env "[]", unfolded rejection_def]
      have run: "run_tools env [tu] [] ?s4 =
                   (Next [(tu_id tu, ''Error: '' @ tu_name tu @ '' is not available in PLAN mode. Use plan_mode_respond to present your plan first.'')], ?s4)"
        using h c4 by (simp add: process_tool_def immediate_tools_def)
      have it: "agent_iteration env u s =
                 AContinue (''['' @ tu_id tu @ ''] Result: '' @ ''Error: '' @ tu_name tu @ '' is not available in PLAN mode. Use plan_mode_respond to present your plan first.'') ?s4"
        using h run by (simp add: agent_iteration_def fold_results_def)
      show "\<exists>s4. agent_iteration env u s =
                 AContinue (''['' @ tu_id tu @ ''] Result: '' @ ''Error: '' @ tu_name tu @ '' is not available in PLAN mode. Use plan_mode_respond to present your plan first.'') s4 \<and>
               mode s4 = mode s \<and>
               (\<forall>n. agent_task_loop env (Suc n) u s =
                    agent_task_loop env n
                      (''['' @ tu_id tu @ ''] Result: '' @ ''Error: '' @ tu_name tu @ '' is not available in PLAN mode. Use plan_mode_respond to present your plan first.'') s4)"
        using it m3 by (intro exI[of _ ?s4]) simp
    qed
    from c d i p q show ?thesis by blast
  qed
  from policy body show ?thesis by blast
qed

text \<open>
  The theorem in PLAN mode: on \<^verbatim>\<open>attempt_completion\<close>, alone in its batch, and on
  \<^verbatim>\<open>write_to_file\<close> with a blank line typed at the prompt. Neither tool is called.
\<close>

theorem mode_policy_rejection_witness:
  "ascii_console sample_env \<and>
   \<not> allowed PLAN ''attempt_completion'' \<and> \<not> allowed PLAN ''write_to_file'' \<and>
   process_tool sample_env (tool_call ''attempt_completion'' [(''result'', PStr ''done'')]) []
       (plan_agent []) =
     (Next [(''tool_attempt_completion'', ''Error: attempt_completion is not available in PLAN mode. Use plan_mode_respond to present your plan first.'')],
      plan_agent []) \<and>
   fst (process_tool sample_env (tool_call ''write_to_file'' [(''path'', PStr ''a'')]) []
       (plan_agent ['' ''])) =
     Next [(''tool_write_to_file'', ''Error: write_to_file is not available in PLAN mode. Use plan_mode_respond to present your plan first.'')] \<and>
   dispatched (agent_trace (snd (process_tool sample_env
       (tool_call ''write_to_file'' [(''path'', PStr ''a'')]) [] (plan_agent ['' ''])))) = [] \<and>
   next_content (agent_iteration sample_env ''go''
      (sample_agent PLAN
         \<lparr>inputs = [],
          answers = [([ToolUse (tool_call ''attempt_completion'' [(''result'', PStr ''done'')])], None)],
          sink_up = True\<rparr>)) =
     Some (''[tool_attempt_completion] Result: '' @ ''Error: attempt_completion is not available in PLAN mode. Use plan_mode_respond to present your plan first.'')"
proof -
  let ?c = "tool_call ''attempt_completion'' [(''result'', PStr ''done'')]"
  let ?w = "tool_call ''write_to_file'' [(''path'', PStr ''a'')]"
  let ?a = "sample_agent PLAN
         \<lparr>inputs = [],
          answers = [([ToolUse ?c], None)],
          sink_up = True\<rparr>"
  have na: "\<not> allowed (mode (plan_agent [])) (tu_name ?c)"
    and nw: "\<not> allowed (mode (plan_agent ['' ''])) (tu_name ?w)"
    and nc: "\<not> allowed (mode ?a) (tu_name ?c)"
    by (simp_all add: allowed_def mode_rejects_def act_only_tools_def plan_agent_def
        sample_agent_def tool_call_def)
  have ids: "tu_id ?c = ''tool_attempt_completion''" "tu_name ?c = ''attempt_completion''"
    "tu_id ?w = ''tool_write_to_file''" "tu_name ?w = ''write_to_file''"
    by (simp_all add: tool_call_def)
  obtain s1 where blank: "agent_input sample_env (plan_agent ['' '']) = (Inr '' '', s1)"
    by (simp add: agent_input_def sample_env_def plan_agent_def sample_agent_def new_agent_def
        ascii_def)
  have sb: "strip '' '' = []" by (simp add: strip_def is_space_def)
  have e: "dispatched (agent_trace (plan_agent ['' ''])) = []"
    by (simp add: plan_agent_def sample_agent_def new_agent_def)
  obtain s3 where req: "agent_request sample_env ''go'' ?a = (([ToolUse ?c], None), s3)"
    by (simp add: agent_request_def agent_build_context_def ai_client_stream_message_def
        sample_env_def sample_agent_def new_agent_def Let_def)
  have col: "collect [ToolUse ?c] [] [] = ([], [?c])" by simp
  from mode_policy_rejection[of sample_env "plan_agent []" ?c "[]" "[]" "''go''"] na ids(2)
    sample_console
  have A: "process_tool sample_env ?c [] (plan_agent []) =
     (Next ([] @ [(tu_id ?c, ''Error: '' @ tu_name ?c @ '' is not available in PLAN mode. Use plan_mode_respond to present your plan first.'')]), plan_agent [])"
    by blast
  from mode_policy_rejection[of sample_env "plan_agent ['' '']" ?w "[]" "[]" "''go''"] nw ids(4)
    blank sb sample_console
  have B: "process_tool sample_env ?w [] (plan_agent ['' '']) =
           (Next ([] @ [(tu_id ?w, ''Error: '' @ tu_name ?w @ '' is not available in PLAN mode. Use plan_mode_respond to present your plan first.'')]), s1)"
    and C: "dispatched (agent_trace (snd (process_tool sample_env ?w [] (plan_agent ['' ''])))) =
              dispatched (agent_trace (plan_agent ['' '']))"
    by blast+
  from mode_policy_rejection[of sample_env ?a ?c "[]" "[]" "''go''"] nc ids(2) req col
    sample_console
  obtain s4 where D: "agent_iteration sample_env ''go'' ?a =
      AContinue (''['' @ tu_id ?c @ ''] Result: '' @ ''Error: '' @ tu_name ?c @ '' is not available in PLAN mode. Use plan_mode_respond to present your plan first.'') s4"
    by blast
  have P: "\<not> allowed PLAN ''attempt_completion'' \<and> \<not> allowed PLAN ''write_to_file''"
    by (simp add: allowed_def mode_rejects_def act_only_tools_def)
  from sample_console A B C D P show ?thesis
    unfolding ids e by simp
qed

text \<open>
  Claim C2 as it was stated fails when the user types feedback at the prompt that stands
  before the mode check: for \<^verbatim>\<open>write_to_file\<close> in PLAN mode and the line \<^verbatim>\<open>no\<close>, the
  body ends with the \<^verbatim>\<open>break\<close>, no rejection result is produced and the next user
  content is the feedback alone.
\<close>

theorem feedback_before_rejection_counterexample:
  "\<not> allowed PLAN ''write_to_file'' \<and>
   fst (process_tool sample_env (tool_call ''write_to_file'' [(''path'', PStr ''a'')]) []
          (plan_agent [''no''])) = Break ''no'' \<and>
   next_content (agent_iteration sample_env ''go''
      (sample_agent PLAN
         \<lparr>inputs = [''no''],
          answers = [([ToolUse (tool_call ''write_to_file'' [(''path'', PStr ''a'')])], None)],
          sink_up = True\<rparr>)) =
     Some (''<feedback>'' @ [CHR 0x0A] @ ''no'' @ [CHR 0x0A] @ ''</feedback>'')"
  by (simp add: agent_iteration_def agent_request_def agent_build_context_def
      ai_client_stream_message_def sample_env_def sample_agent_def new_agent_def plan_agent_def
      tool_call_def process_tool_def check_and_execute_def agent_input_def
      immediate_tools_def strip_def is_space_def ascii_def nl_def Let_def allowed_def
      mode_rejects_def act_only_tools_def)


section \<open>Facts about tool results in the two loops\<close>

lemma consume_append:
  "consume env (pre @ post) am trs s =
     (case consume env pre am trs s of
        (Inl e, s1) \<Rightarrow> (Inl e, s1)
      | (Inr (am1, trs1), s1) \<Rightarrow> consume env post am1 trs1 s1)"
proof (induction pre arbitrary: am trs s)
  case Nil
  show ?case by simp
next
  case (Cons f fs)
  show ?case
    by (cases f) (auto simp: Cons.IH split: prod.splits sum.splits option.splits)
qed

lemma task_folds_tool_result:
  assumes "task_request env u t = (Inr (pre @ ToolUse tu # post, None), t3)"
  shows "\<exists>am1 trs1 t1 r t2 new t'.
           consume env pre [] [] t3 = (Inr (am1, trs1), t1) \<and>
           execute_tool env tu t1 = (Inr r, t2) \<and>
           task_iteration env u t = Continue (fold_results (trs1 @ (tu_id tu, r) # new)) t'"
proof -
  from consume_returns[of env pre "[]" "[]" t3] obtain am1 trs1 t1 where
    a: "consume env pre [] [] t3 = (Inr (am1, trs1), t1)" by auto
  from execute_tool_returns[of env tu t1] obtain r t2 where
    b: "execute_tool env tu t1 = (Inr r, t2)" by blast
  from consume_returns[of env post am1 "trs1 @ [(tu_id tu, r)]" t2] obtain am' new t4 where
    c: "consume env post am1 (trs1 @ [(tu_id tu, r)]) t2 =
          (Inr (am', (trs1 @ [(tu_id tu, r)]) @ new), t4)" by blast
  have "consume env (pre @ ToolUse tu # post) [] [] t3 =
          (Inr (am', trs1 @ (tu_id tu, r) # new), t4)"
    using a b c by (simp add: consume_append)
  then have "task_iteration env u t = Continue (fold_results (trs1 @ (tu_id tu, r) # new))
               (t4\<lparr>conversation_history := conversation_history t4 @ [(Assistant, am')]\<rparr>)"
    using assms by (simp add: task_iteration_def)
  with a b show ?thesis by blast
qed

lemma agent_folds_tool_result:
  assumes req: "agent_request env u a = ((frags, None), a3)"
    and col: "collect frags [] [] = (am, pre @ tu # post)"
    and run: "run_tools env (pre @ tu # post) []
                (a3\<lparr>agent_history := agent_history a3 @ [(Assistant, am)]\<rparr>) = (Next trs', a5)"
  shows "\<exists>trs1 a1 r a2 new.
           run_tools env pre [] (a3\<lparr>agent_history := agent_history a3 @ [(Assistant, am)]\<rparr>)
             = (Next trs1, a1) \<and>
           process_tool env tu trs1 a1 = (Next (trs1 @ [(tu_id tu, r)]), a2) \<and>
           trs' = trs1 @ (tu_id tu, r) # new \<and>
           agent_iteration env u a = AContinue (fold_results trs') a5"
proof -
  let ?a4 = "a3\<lparr>agent_history := agent_history a3 @ [(Assistant, am)]\<rparr>"
  obtain b1 a1 where p1: "run_tools env pre [] ?a4 = (b1, a1)"
    by (cases "run_tools env pre [] ?a4")
  with run obtain trs1 where b1: "b1 = Next trs1"
    by (cases b1) (simp_all add: run_tools_append)
  with p1 run have r2: "run_tools env (tu # post) trs1 a1 = (Next trs', a5)"
    by (simp add: run_tools_append)
  obtain b2 a2 where p2: "process_tool env tu trs1 a1 = (b2, a2)"
    by (cases "process_tool env tu trs1 a1")
  with r2 obtain trs2 where b2: "b2 = Next trs2"
    by (cases b2) simp_all
  from process_tool_keeps[OF p2] b2 obtain r where trs2: "trs2 = trs1 @ [(tu_id tu, r)]"
    by auto
  from r2 p2 b2 have r3: "run_tools env post trs2 a2 = (Next trs', a5)" by simp
  from run_tools_keeps[OF r3] obtain new where new: "trs' = trs2 @ new" by auto
  have ne: "trs' \<noteq> []" using new trs2 by simp
  have "agent_iteration env u a = AContinue (fold_results trs') a5"
    using req col run ne by (simp add: agent_iteration_def)
  with p1 b1 p2 b2 trs2 new show ?thesis by auto
qed

text \<open>
  Claim C8, as amended. In the loop behind the websocket, \<^verbatim>\<open>execute_tool\<close> always
  returns a text and never raises: \<^verbatim>\<open>Unknown tool: <name>\<close> for a name that is not
  registered, \<^verbatim>\<open>Error: <message>\<close> when the tool raises; a pass whose stream ends
  normally folds the result of every invocation into the next user content, and the loop
  goes on with it. In the console loop, on a console that delivers ASCII lines, the body
  from the mode check on gives the same two texts as the result of an allowed invocation
  and goes on with the batch; the results are folded into the next user content, and the
  loop goes on with it, when the batch is processed to its end. The folded text is the
  lines \<^verbatim>\<open>[<id>] Result: <text>\<close>, separated by an empty line.
\<close>

theorem tool_failures_become_results:
  "(\<exists>r t'. execute_tool env tu t = (Inr r, t')) \<and>
   (tu_name tu \<notin> set task_tools \<longrightarrow>
      fst (execute_tool env tu t) = Inr (''Unknown tool: '' @ tu_name tu)) \<and>
   (tu_name tu \<in> set task_tools \<and>
    env_tool env (tu_name tu) (config_cwd t) (tu_input tu)
      (world (snd (send_to_ui env ''tool'' (UiTool (tu_name tu) (tu_input tu)) t))) = (Inl e, w) \<longrightarrow>
      fst (execute_tool env tu t) = Inr (''Error: '' @ e)) \<and>
   (\<not> abort t \<and> task_request env u t = (Inr (pre @ ToolUse tu # post, None), t3) \<longrightarrow>
      (\<exists>am1 trs1 t1 r t2 new t'.
         consume env pre [] [] t3 = (Inr (am1, trs1), t1) \<and>
         execute_tool env tu t1 = (Inr r, t2) \<and>
         task_iteration env u t = Continue (fold_results (trs1 @ (tu_id tu, r) # new)) t' \<and>
         (\<forall>n. task_loop env (Suc n) u t =
                task_loop env n (fold_results (trs1 @ (tu_id tu, r) # new)) t'))) \<and>
   (ascii_console env \<and> allowed (mode a) (tu_name tu) \<and> tu_name tu \<noteq> ''plan_mode_respond'' \<and>
    tu_name tu \<notin> set agent_tools \<longrightarrow>
      check_and_execute env tu trs a =
        (Next (trs @ [(tu_id tu, ''Unknown tool: '' @ tu_name tu)]), a)) \<and>
   (ascii_console env \<and> allowed (mode a) (tu_name tu) \<and> tu_name tu \<in> set agent_tools \<and>
    env_tool env (tu_name tu) (working_dir a) (tu_input tu) (agent_world a) = (Inl e, w) \<longrightarrow>
      check_and_execute env tu trs a =
        (Next (trs @ [(tu_id tu, ''Error: '' @ e)]),
         a\<lparr>agent_world := w,
           agent_trace := agent_trace a @ [Dispatch (tu_name tu) (tu_input tu)]\<rparr>)) \<and>
   (ascii_console env \<and> agent_request env u a = ((frags, None), a3) \<and>
    collect frags [] [] = (am, tus1 @ tu # tus2) \<and>
    run_tools env (tus1 @ tu # tus2) []
      (a3\<lparr>agent_history := agent_history a3 @ [(Assistant, am)]\<rparr>) = (Next trs', a5) \<longrightarrow>
      (\<exists>trs1 a1 r a2 new.
         run_tools env tus1 [] (a3\<lparr>agent_history := agent_history a3 @ [(Assistant, am)]\<rparr>)
           = (Next trs1, a1) \<and>
         process_tool env tu trs1 a1 = (Next (trs1 @ [(tu_id tu, r)]), a2) \<and>
         trs' = trs1 @ (tu_id tu, r) # new \<and>
         agent_iteration env u a = AContinue (fold_results trs') a5 \<and>
         (\<forall>n. agent_task_loop env (Suc n) u a = agent_task_loop env n (fold_results trs') a5))) \<and>
   fold_results rs =
      join [CHR 0x0A, CHR 0x0A] (map (\<lambda>r. ''['' @ fst r @ ''] Result: '' @ snd r) rs)"
proof -
  have A: "\<exists>r t'. execute_tool env tu t = (Inr r, t')"
    using execute_tool_returns[of env tu t] by blast
  have B: "tu_name tu \<notin> set task_tools \<longrightarrow>
      fst (execute_tool env tu t) = Inr (''Unknown tool: '' @ tu_name tu)"
    by (simp add: execute_tool_unknown)
  have C: "tu_name tu \<in> set task_tools \<and>
    env_tool env (tu_name tu) (config_cwd t) (tu_input tu)
      (world (snd (send_to_ui env ''tool'' (UiTool (tu_name tu) (tu_input tu)) t))) = (Inl e, w) \<longrightarrow>
      fst (execute_tool env tu t) = Inr (''Error: '' @ e)"
    using execute_tool_error[of tu env t e w] by blast
  have D: "\<not> abort t \<and> task_request env u t = (Inr (pre @ ToolUse tu # post, None), t3) \<longrightarrow>
      (\<exists>am1 trs1 t1 r t2 new t'.
         consume env pre [] [] t3 = (Inr (am1, trs1), t1) \<and>
         execute_tool env tu t1 = (Inr r, t2) \<and>
         task_iteration env u t = Continue (fold_results (trs1 @ (tu_id tu, r) # new)) t' \<and>
         (\<forall>n. task_loop env (Suc n) u t =
                task_loop env n (fold_results (trs1 @ (tu_id tu, r) # new)) t'))"
  proof
    assume h: "\<not> abort t \<and> task_request env u t = (Inr (pre @ ToolUse tu # post, None), t3)"
    from task_folds_tool_result[of env u t pre tu post t3] h
    obtain am1 trs1 t1 r t2 new t' where
      k: "consume env pre [] [] t3 = (Inr (am1, trs1), t1)"
         "execute_tool env tu t1 = (Inr r, t2)"
         "task_iteration env u t = Continue (fold_results (trs1 @ (tu_id tu, r) # new)) t'"
      by blast
    from h k(3) have "\<forall>n. task_loop env (Suc n) u t =
                task_loop env n (fold_results (trs1 @ (tu_id tu, r) # new)) t'"
      by simp
    with k show "\<exists>am1 trs1 t1 r t2 new t'.
         consume env pre [] [] t3 = (Inr (am1, trs1), t1) \<and>
         execute_tool env tu t1 = (Inr r, t2) \<and>
         task_iteration env u t = Continue (fold_results (trs1 @ (tu_id tu, r) # new)) t' \<and>
         (\<forall>n. task_loop env (Suc n) u t =
                task_loop env n (fold_results (trs1 @ (tu_id tu, r) # new)) t')"
      by blast
  qed
  have E: "ascii_console env \<and> allowed (mode a) (tu_name tu) \<and> tu_name tu \<noteq> ''plan_mode_respond'' \<and>
    tu_name tu \<notin> set agent_tools \<longrightarrow>
      check_and_execute env tu trs a =
        (Next (trs @ [(tu_id tu, ''Unknown tool: '' @ tu_name tu)]), a)"
    using check_and_execute_unknown[of a tu env trs] by (simp add: allowed_def)
  have F: "ascii_console env \<and> allowed (mode a) (tu_name tu) \<and> tu_name tu \<in> set agent_tools \<and>
    env_tool env (tu_name tu) (working_dir a) (tu_input tu) (agent_world a) = (Inl e, w) \<longrightarrow>
      check_and_execute env tu trs a =
        (Next (trs @ [(tu_id tu, ''Error: '' @ e)]),
         a\<lparr>agent_world := w,
           agent_trace := agent_trace a @ [Dispatch (tu_name tu) (tu_input tu)]\<rparr>)"
    using check_and_execute_error[of a tu env e w trs] by (simp add: allowed_def)
  have G: "ascii_console env \<and> agent_request env u a = ((frags, None), a3) \<and>
    collect frags [] [] = (am, tus1 @ tu # tus2) \<and>
    run_tools env (tus1 @ tu # tus2) []
      (a3\<lparr>agent_history := agent_history a3 @ [(Assistant, am)]\<rparr>) = (Next trs', a5) \<longrightarrow>
      (\<exists>trs1 a1 r a2 new.
         run_tools env tus1 [] (a3\<lparr>agent_history := agent_history a3 @ [(Assistant, am)]\<rparr>)
           = (Next trs1, a1) \<and>
         process_tool env tu trs1 a1 = (Next (trs1 @ [(tu_id tu, r)]), a2) \<and>
         trs' = trs1 @ (tu_id tu, r) # new \<and>
         agent_iteration env u a = AContinue (fold_results trs') a5 \<and>
         (\<forall>n. agent_task_loop env (Suc n) u a = agent_task_loop env n (fold_results trs') a5))"
  proof
    assume h: "ascii_console env \<and> agent_request env u a = ((frags, None), a3) \<and>
    collect frags [] [] = (am, tus1 @ tu # tus2) \<and>
    run_tools env (tus1 @ tu # tus2) []
      (a3\<lparr>agent_history := agent_history a3 @ [(Assistant, am)]\<rparr>) = (Next trs', a5)"
    from agent_folds_tool_result[of env u a frags a3 am tus1 tu tus2 trs' a5] h
    obtain trs1 a1 r a2 new where
      k: "run_tools env tus1 [] (a3\<lparr>agent_history := agent_history a3 @ [(Assistant, am)]\<rparr>)
           = (Next trs1, a1)"
         "process_tool env tu trs1 a1 = (Next (trs1 @ [(tu_id tu, r)]), a2)"
         "trs' = trs1 @ (tu_id tu, r) # new"
         "agent_iteration env u a = AContinue (fold_results trs') a5"
      by blast
    from k(4) have "\<forall>n. agent_task_loop env (Suc n) u a = agent_task_loop env n (fold_results trs') a5"
      by simp
    with k show "\<exists>trs1 a1 r a2 new.
         run_tools env tus1 [] (a3\<lparr>agent_history := agent_history a3 @ [(Assistant, am)]\<rparr>)
           = (Next trs1, a1) \<and>
         process_tool env tu trs1 a1 = (Next (trs1 @ [(tu_id tu, r)]), a2) \<and>
         trs' = trs1 @ (tu_id tu, r) # new \<and>
         agent_iteration env u a = AContinue (fold_results trs') a5 \<and>
         (\<forall>n. agent_task_loop env (Suc n) u a = agent_task_loop env n (fold_results trs') a5)"
      by blast
  qed
  have H: "fold_results rs =
      join [CHR 0x0A, CHR 0x0A] (map (\<lambda>r. ''['' @ fst r @ ''] Result: '' @ snd r) rs)"
    by (simp add: fold_results_def nl_def)
  from A B C D E F G H show ?thesis by blast
qed

text \<open>
  The theorem on a batch of a read that raises, a tool that is not registered and a
  write, with Enter pressed at each prompt: both loops go on with the three results
  folded.
\<close>

theorem tool_failures_become_results_witness:
  "ascii_console sample_env \<and>
   fst (execute_tool sample_env (tool_call ''ask_followup_question'' [(''question'', PStr ''q'')])
          (sample_task (failing_world []))) =
     Inr ''Unknown tool: ask_followup_question'' \<and>
   fst (execute_tool sample_env (tool_call ''read_file'' [(''path'', PStr ''a'')])
          (sample_task (failing_world []))) =
     Inr ''Error: boom'' \<and>
   (\<exists>t'. task_iteration sample_env ''go'' (sample_task (failing_world [])) =
      Continue (''[tool_read_file] Result: Error: boom'' @ [CHR 0x0A, CHR 0x0A] @
                ''[tool_ask_followup_question] Result: Unknown tool: ask_followup_question'' @ [CHR 0x0A, CHR 0x0A] @
                ''[tool_write_to_file] Result: ok'') t' \<and>
      task_loop sample_env 3 ''go'' (sample_task (failing_world [])) =
        task_loop sample_env 2 (''[tool_read_file] Result: Error: boom'' @ [CHR 0x0A, CHR 0x0A] @
                ''[tool_ask_followup_question] Result: Unknown tool: ask_followup_question'' @ [CHR 0x0A, CHR 0x0A] @
                ''[tool_write_to_file] Result: ok'') t') \<and>
   fst (check_and_execute sample_env (tool_call ''ask_followup_question'' [(''question'', PStr ''q'')])
          [] (sample_agent ACT (failing_world [[], []]))) =
     Next [(''tool_ask_followup_question'', ''Unknown tool: ask_followup_question'')] \<and>
   fst (check_and_execute sample_env (tool_call ''read_file'' [(''path'', PStr ''a'')])
          [] (sample_agent ACT (failing_world [[], []]))) =
     Next [(''tool_read_file'', ''Error: boom'')] \<and>
   (\<exists>a'. agent_iteration sample_env ''go'' (sample_agent ACT (failing_world [[], []])) =
      AContinue (''[tool_read_file] Result: Error: boom'' @ [CHR 0x0A, CHR 0x0A] @
                ''[tool_ask_followup_question] Result: Unknown tool: ask_followup_question'' @ [CHR 0x0A, CHR 0x0A] @
                ''[tool_write_to_file] Result: ok'') a' \<and>
      agent_task_loop sample_env 3 ''go'' (sample_agent ACT (failing_world [[], []])) =
        agent_task_loop sample_env 2 (''[tool_read_file] Result: Error: boom'' @ [CHR 0x0A, CHR 0x0A] @
                ''[tool_ask_followup_question] Result: Unknown tool: ask_followup_question'' @ [CHR 0x0A, CHR 0x0A] @
                ''[tool_write_to_file] Result: ok'') a')"
proof -
  let ?q = "tool_call ''ask_followup_question'' [(''question'', PStr ''q'')]"
  let ?r = "tool_call ''read_file'' [(''path'', PStr ''a'')]"
  let ?w = "tool_call ''write_to_file'' [(''path'', PStr ''a'')]"
  let ?t = "sample_task (failing_world [])"
  let ?a = "sample_agent ACT (failing_world [[], []])"
  let ?fold = "''[tool_read_file] Result: Error: boom'' @ [CHR 0x0A, CHR 0x0A] @
                ''[tool_ask_followup_question] Result: Unknown tool: ask_followup_question'' @ [CHR 0x0A, CHR 0x0A] @
                ''[tool_write_to_file] Result: ok''"
  have ids: "tu_id ?q = ''tool_ask_followup_question''" "tu_name ?q = ''ask_followup_question''"
    "tu_id ?r = ''tool_read_file''" "tu_name ?r = ''read_file''"
    by (simp_all add: tool_call_def)
  have q: "tu_name ?q \<notin> set task_tools" by (simp add: tool_call_def task_tools_def)
  have r: "tu_name ?r \<in> set task_tools" by (simp add: tool_call_def task_tools_def)
  obtain w where boom: "env_tool sample_env (tu_name ?r) (config_cwd ?t) (tu_input ?r)
      (world (snd (send_to_ui sample_env ''tool'' (UiTool (tu_name ?r) (tu_input ?r)) ?t))) =
      (Inl ''boom'', w)"
    by (simp add: sample_env_def sample_tool_def tool_call_def)
  have na: "\<not> abort ?t" by (simp add: sample_task_def)
  obtain t3 where treq: "task_request sample_env ''go'' ?t =
      (Inr ([] @ ToolUse ?r # [ToolUse ?q, ToolUse ?w], None), t3)"
    by (simp add: task_request_def task_build_context_def ai_client_stream_message_def
        sample_env_def sample_task_def failing_world_def Let_def)
  have al: "allowed (mode ?a) (tu_name ?q)" "allowed (mode ?a) (tu_name ?r)"
    by (simp_all add: allowed_def mode_rejects_def sample_agent_def)
  have nq: "tu_name ?q \<noteq> ''plan_mode_respond''" "tu_name ?q \<notin> set agent_tools"
    "tu_name ?r \<in> set agent_tools"
    by (simp_all add: tool_call_def agent_tools_def)
  obtain w' where boom': "env_tool sample_env (tu_name ?r) (working_dir ?a) (tu_input ?r)
      (agent_world ?a) = (Inl ''boom'', w')"
    by (simp add: sample_env_def sample_tool_def tool_call_def)
  obtain a3 where areq: "agent_request sample_env ''go'' ?a =
      (([ToolUse ?r, ToolUse ?q, ToolUse ?w], None), a3)"
    and a3: "mode a3 = ACT" "working_dir a3 = ''/w''" "inputs (agent_world a3) = [[], []]"
    by (simp add: agent_request_def agent_build_context_def ai_client_stream_message_def
        sample_env_def sample_agent_def new_agent_def failing_world_def Let_def)
  have col: "collect [ToolUse ?r, ToolUse ?q, ToolUse ?w] [] [] = ([], [] @ ?r # [?q, ?w])"
    by simp
  let ?res = "[(''tool_read_file'', ''Error: boom''),
             (''tool_ask_followup_question'', ''Unknown tool: ask_followup_question''),
             (''tool_write_to_file'', ''ok'')]"
  obtain a5 where run: "run_tools sample_env ([] @ ?r # [?q, ?w]) []
      (a3\<lparr>agent_history := agent_history a3 @ [(Assistant, [])]\<rparr>) = (Next ?res, a5)"
    using a3
    by (simp add: process_tool_def check_and_execute_def agent_input_def immediate_tools_def
        mode_rejects_def agent_tools_def tool_call_def sample_env_def sample_tool_def
        strip_def ascii_def Let_def)
  note Tq = tool_failures_become_results[where env = sample_env and tu = "?q" and t = "?t"
      and e = "''boom''" and w = w and u = "''go''" and pre = "[]"
      and post = "[ToolUse ?q, ToolUse ?w]" and ?t3.0 = t3 and a = "?a" and trs = "[]"
      and frags = "[ToolUse ?r, ToolUse ?q, ToolUse ?w]" and ?a3.0 = a3 and am = "[]"
      and ?tus1.0 = "[]" and ?tus2.0 = "[?q, ?w]" and trs' = "?res" and ?a5.0 = a5 and rs = "?res"]
  note Tr = tool_failures_become_results[where env = sample_env and tu = "?r" and t = "?t"
      and e = "''boom''" and w = w and u = "''go''" and pre = "[]"
      and post = "[ToolUse ?q, ToolUse ?w]" and ?t3.0 = t3 and a = "?a" and trs = "[]"
      and frags = "[ToolUse ?r, ToolUse ?q, ToolUse ?w]" and ?a3.0 = a3 and am = "[]"
      and ?tus1.0 = "[]" and ?tus2.0 = "[?q, ?w]" and trs' = "?res" and ?a5.0 = a5 and rs = "?res"]
  note Tr' = tool_failures_become_results[where env = sample_env and tu = "?r" and t = "?t"
      and e = "''boom''" and w = w' and u = "''go''" and pre = "[]"
      and post = "[ToolUse ?q, ToolUse ?w]" and ?t3.0 = t3 and a = "?a" and trs = "[]"
      and frags = "[ToolUse ?r, ToolUse ?q, ToolUse ?w]" and ?a3.0 = a3 and am = "[]"
      and ?tus1.0 = "[]" and ?tus2.0 = "[?q, ?w]" and trs' = "?res" and ?a5.0 = a5 and rs = "?res"]
  have A: "fst (execute_tool sample_env ?q ?t) = Inr (''Unknown tool: '' @ tu_name ?q)"
    using Tq[THEN conjunct2, THEN conjunct1] q by blast
  have B: "fst (execute_tool sample_env ?r ?t) = Inr (''Error: '' @ ''boom'')"
    using Tr[THEN conjunct2, THEN conjunct2, THEN conjunct1] r boom by blast
  have fv: "fold_results ?res = ?fold"
    using Tr[THEN conjunct2, THEN conjunct2, THEN conjunct2, THEN conjunct2, THEN conjunct2,
             THEN conjunct2, THEN conjunct2]
    by simp
  from Tr[THEN conjunct2, THEN conjunct2, THEN conjunct2, THEN conjunct1] na treq
  obtain am1 trs1 t1 r1 t2 new t' where
    tk: "task_iteration sample_env ''go'' ?t = Continue (fold_results (trs1 @ (tu_id ?r, r1) # new)) t'"
        "\<forall>n. task_loop sample_env (Suc n) ''go'' ?t =
                task_loop sample_env n (fold_results (trs1 @ (tu_id ?r, r1) # new)) t'"
    by blast
  have tval: "\<exists>t'. task_iteration sample_env ''go'' ?t = Continue ?fold t'"
    by (simp add: task_iteration_def task_request_def task_build_context_def
        ai_client_stream_message_def sample_env_def sample_task_def failing_world_def
        execute_tool_def send_to_ui_def task_tools_def tool_call_def sample_tool_def
        fold_results_def nl_def Let_def)
  from tk(1) tval have tf: "fold_results (trs1 @ (tu_id ?r, r1) # new) = ?fold" by auto
  have t3': "task_loop sample_env 3 ''go'' ?t = task_loop sample_env 2 ?fold t'"
    using tk(2)[rule_format, of 2] unfolding tf by (simp only: eval_nat_numeral Suc_numeral)
  have C: "\<exists>t'. task_iteration sample_env ''go'' ?t = Continue ?fold t' \<and>
      task_loop sample_env 3 ''go'' ?t = task_loop sample_env 2 ?fold t'"
    using tk(1)[unfolded tf] t3' by blast
  have E: "fst (check_and_execute sample_env ?q [] ?a) =
             Next ([] @ [(tu_id ?q, ''Unknown tool: '' @ tu_name ?q)])"
    using Tq[THEN conjunct2, THEN conjunct2, THEN conjunct2, THEN conjunct2, THEN conjunct1]
      sample_console al(1) nq(1,2) by simp
  have F: "fst (check_and_execute sample_env ?r [] ?a) =
             Next ([] @ [(tu_id ?r, ''Error: '' @ ''boom'')])"
    using Tr'[THEN conjunct2, THEN conjunct2, THEN conjunct2, THEN conjunct2, THEN conjunct2,
              THEN conjunct1]
      sample_console al(2) nq(3) boom' by simp
  from Tr[THEN conjunct2, THEN conjunct2, THEN conjunct2, THEN conjunct2, THEN conjunct2,
          THEN conjunct2, THEN conjunct1] sample_console areq col run
  have ak: "agent_iteration sample_env ''go'' ?a = AContinue ?fold a5"
    "\<forall>n. agent_task_loop sample_env (Suc n) ''go'' ?a = agent_task_loop sample_env n ?fold a5"
    unfolding fv by blast+
  have a3': "agent_task_loop sample_env 3 ''go'' ?a = agent_task_loop sample_env 2 ?fold a5"
    using ak(2)[rule_format, of 2] by (simp only: eval_nat_numeral Suc_numeral)
  have G: "\<exists>a'. agent_iteration sample_env ''go'' ?a = AContinue ?fold a' \<and>
      agent_task_loop sample_env 3 ''go'' ?a = agent_task_loop sample_env 2 ?fold a'"
    using ak(1) a3' by blast
  from sample_console A B C E F G show ?thesis
    unfolding ids by simp
qed

text \<open>
  Claim C8 as it was stated fails in the console loop when the batch is left before its
  end. Same batch, Enter pressed at the prompt of the read, \<^verbatim>\<open>use tabs\<close> typed at the
  prompt of the write: the read was dispatched and its failure became the result
  \<^verbatim>\<open>Error: boom\<close>, but the next user content is the feedback alone; the result is
  not folded back into the conversation.
\<close>

theorem failure_result_dropped_counterexample:
  "fst (process_tool sample_env (tool_call ''read_file'' [(''path'', PStr ''a'')]) []
          (sample_agent ACT (failing_world [[], ''use tabs'']))) =
     Next [(''tool_read_file'', ''Error: boom'')] \<and>
   dispatched (agent_trace (step_state
      (agent_iteration sample_env ''go'' (sample_agent ACT (failing_world [[], ''use tabs''])))))
     = [''read_file''] \<and>
   next_content (agent_iteration sample_env ''go''
      (sample_agent ACT (failing_world [[], ''use tabs'']))) =
     Some (''<feedback>'' @ [CHR 0x0A] @ ''use tabs'' @ [CHR 0x0A] @ ''</feedback>'')"
  by (simp add: agent_iteration_def agent_request_def agent_build_context_def
      ai_client_stream_message_def sample_env_def sample_agent_def new_agent_def
      failing_world_def tool_call_def process_tool_def check_and_execute_def agent_input_def
      immediate_tools_def strip_def is_space_def ascii_def nl_def Let_def mode_rejects_def
      agent_tools_def sample_tool_def)


section \<open>Facts about the mode that reaches the provider\<close>

lemma lower_Switch: "lower ''Switch'' = ''switch''" and lower_Nil: "lower [] = []"
  by (simp_all add: lower_def lower_char_def char_of_def bit_iff_odd)

lemma agent_iteration_modes:
  "call_modes (agent_trace (step_state (agent_iteration env u a))) =
     call_modes (agent_trace a) @ [mode a] \<and>
   (mode (step_state (agent_iteration env u a)) = mode a \<or>
    mode (step_state (agent_iteration env u a)) = ACT)"
proof -
  obtain frags err a3 where req: "agent_request env u a = ((frags, err), a3)"
    by (cases "agent_request env u a") auto
  from agent_request_keeps[OF req] have
    k: "mode a3 = mode a" "call_modes (agent_trace a3) = call_modes (agent_trace a) @ [mode a]"
    by (simp_all add: call_modes_append)
  show ?thesis
  proof (cases err)
    case (Some e)
    with req k show ?thesis by (simp add: agent_iteration_def)
  next
    case None
    obtain am tus where col: "collect frags [] [] = (am, tus)"
      by (cases "collect frags [] []")
    let ?a4 = "a3\<lparr>agent_history := agent_history a3 @ [(Assistant, am)]\<rparr>"
    show ?thesis
    proof (cases "tus = []")
      case True
      with req None col k show ?thesis by (simp add: agent_iteration_def)
    next
      case False
      obtain b a5 where run: "run_tools env tus [] ?a4 = (b, a5)"
        by (cases "run_tools env tus [] ?a4")
      from run_tools_keeps[OF run] k have
        "call_modes (agent_trace a5) = call_modes (agent_trace a) @ [mode a]"
        "mode a5 = mode a \<or> mode a5 = ACT"
        by simp_all
      with req None col False run show ?thesis
        by (cases b) (simp_all add: agent_iteration_def)
    qed
  qed
qed

lemma agent_loop_modes:
  "\<exists>i j. call_modes (agent_trace (agent_final (agent_task_loop env n u a))) =
           call_modes (agent_trace a) @ replicate i (mode a) @ replicate j ACT \<and>
         i + j \<le> n \<and>
         (mode (agent_final (agent_task_loop env n u a)) = mode a \<or>
          mode (agent_final (agent_task_loop env n u a)) = ACT) \<and>
         (mode (agent_final (agent_task_loop env n u a)) = PLAN \<longrightarrow> j = 0)"
proof (induction n arbitrary: u a)
  case 0
  show ?case by simp
next
  case (Suc n)
  note it = agent_iteration_modes[of env u a]
  have last: ?case
    if f: "agent_final (agent_task_loop env (Suc n) u a) = a'"
      and st: "step_state (agent_iteration env u a) = a'" for a'
  proof -
    from it st have "call_modes (agent_trace a') =
        call_modes (agent_trace a) @ replicate 1 (mode a) @ replicate 0 ACT"
      and "mode a' = mode a \<or> mode a' = ACT" by simp_all
    then show ?thesis unfolding f by (intro exI[of _ 1] exI[of _ 0]) simp
  qed
  show ?case
  proof (cases "agent_iteration env u a")
    case (AContinue u' a')
    with it have cm: "call_modes (agent_trace a') = call_modes (agent_trace a) @ [mode a]"
      and md: "mode a' = mode a \<or> mode a' = ACT" by simp_all
    let ?f = "agent_final (agent_task_loop env n u' a')"
    from Suc.IH[of u' a'] obtain i j where
      ih: "call_modes (agent_trace ?f) =
             call_modes (agent_trace a') @ replicate i (mode a') @ replicate j ACT"
          "i + j \<le> n" "mode ?f = mode a' \<or> mode ?f = ACT" "mode ?f = PLAN \<longrightarrow> j = 0"
      by blast
    have eq: "agent_task_loop env (Suc n) u a = agent_task_loop env n u' a'"
      using AContinue by simp
    show ?thesis
    proof (cases "mode a' = mode a")
      case True
      have "call_modes (agent_trace ?f) =
              call_modes (agent_trace a) @ replicate (Suc i) (mode a) @ replicate j ACT"
        using ih(1) cm True by simp
      moreover have "Suc i + j \<le> Suc n" using ih(2) by simp
      moreover have "mode ?f = mode a \<or> mode ?f = ACT" using ih(3) True by simp
      ultimately show ?thesis unfolding eq using ih(4) by blast
    next
      case False
      with md have act: "mode a' = ACT" by simp
      have "call_modes (agent_trace ?f) =
              call_modes (agent_trace a) @ replicate 1 (mode a) @ replicate (i + j) ACT"
        using ih(1) cm act by (simp add: replicate_add)
      moreover have "1 + (i + j) \<le> Suc n" using ih(2) by simp
      moreover have "mode ?f = ACT" using ih(3) act by auto
      ultimately show ?thesis unfolding eq
        by (intro exI[of _ 1] exI[of _ "i + j"]) simp
    qed
  next
    case (ACompleted r a')
    then show ?thesis by (intro last[of a']) simp_all
  next
    case (AFailed e a')
    then show ?thesis by (intro last[of a']) simp_all
  next
    case (ACrashed e a')
    then show ?thesis by (intro last[of a']) simp_all
  qed
qed

lemma task_iteration_modes:
  "(\<forall>u' s'. task_iteration env u s = Continue u' s' \<longrightarrow>
      call_modes (trace s') = call_modes (trace s) @ [ACT]) \<and>
   (\<forall>e s'. task_iteration env u s = Crash e s' \<longrightarrow>
      (\<exists>k. call_modes (trace s') = call_modes (trace s) @ replicate k ACT))"
proof -
  obtain r s3 where req: "task_request env u s = (r, s3)" by (cases "task_request env u s")
  show ?thesis
  proof (cases r)
    case (Inl e)
    then have "call_modes (trace s3) = call_modes (trace s)"
      using req
      by (auto simp: task_request_def task_build_context_def ai_client_stream_message_def Let_def
          split: prod.splits sum.splits)
    with req Inl show ?thesis
      by (auto simp: task_iteration_def intro: exI[of _ 0])
  next
    case (Inr answer)
    obtain frags err where answer: "answer = (frags, err)" by (cases answer)
    from task_request_keeps[OF req] Inr have
      k: "call_modes (trace s3) = call_modes (trace s) @ [ACT]" by simp
    from consume_returns[of env frags "[]" "[]" s3] obtain am' new s4 where
      c: "consume env frags [] [] s3 = (Inr (am', new), s4)"
         "call_modes (trace s4) = call_modes (trace s3)" by auto
    show ?thesis
    proof (cases err)
      case None
      with req Inr answer c k show ?thesis by (auto simp: task_iteration_def Let_def)
    next
      case (Some e)
      with req Inr answer c k show ?thesis
        by (auto simp: task_iteration_def intro: exI[of _ 1])
    qed
  qed
qed

lemma task_loop_modes:
  "\<exists>k. call_modes (trace (task_final (task_loop env n u s))) =
         call_modes (trace s) @ replicate k ACT"
proof (induction n arbitrary: u s)
  case 0
  show ?case by (auto intro: exI[of _ 0])
next
  case (Suc n)
  show ?case
  proof (cases "abort s")
    case True
    then show ?thesis by (auto intro: exI[of _ 0])
  next
    case False
    note it = task_iteration_modes[of env u s]
    show ?thesis
    proof (cases "task_iteration env u s")
      case (Continue u' s')
      with it have cm: "call_modes (trace s') = call_modes (trace s) @ [ACT]" by simp
      from Suc.IH[of u' s'] obtain k where
        "call_modes (trace (task_final (task_loop env n u' s'))) =
           call_modes (trace s') @ replicate k ACT" by blast
      with cm have "call_modes (trace (task_final (task_loop env n u' s'))) =
           call_modes (trace s) @ replicate (Suc k) ACT" by simp
      with False Continue show ?thesis by (auto simp del: replicate_Suc)
    next
      case (Crash e s')
      with it obtain k where "call_modes (trace s') = call_modes (trace s) @ replicate k ACT"
        by blast
      with False Crash show ?thesis by auto
    qed
  qed
qed

text \<open>
  Claim C6, as amended. The console agent is created in PLAN mode, and \<^verbatim>\<open>run\<close> starts
  the task in PLAN unless the line typed at its prompt, trimmed, is \<^verbatim>\<open>2\<close>, which
  starts it in ACT (on a console that delivers ASCII lines). Every call of the provider
  receives the working directory and the mode that the agent has at that moment. That
  mode is not fixed for the task: in the calls of one run of the loop it is the starting
  mode for a number of calls and ACT for all the calls after them, and if the loop is
  still in PLAN then every call was made in PLAN. The loop behind the websocket has no
  mode and passes none: every call it makes reaches the provider with the default of
  \<^verbatim>\<open>AIClient.stream_message\<close>, which is ACT.
\<close>

theorem provider_receives_loop_mode:
  "mode (new_agent dir w) = PLAN \<and>
   (\<forall>line a1. ascii_console env \<and> agent_input env a = (Inr line, a1) \<longrightarrow>
      choose_mode env a = (None, a1\<lparr>mode := (if strip line = ''2'' then ACT else PLAN)\<rparr>)) \<and>
   (\<forall>r a3. agent_request env u a = (r, a3) \<longrightarrow>
      agent_trace a3 = agent_trace a @ [ProviderCall (Some (working_dir a)) (mode a)]) \<and>
   (ascii_console env \<longrightarrow>
      (\<exists>i j. call_modes (agent_trace (agent_final (agent_task_loop env n u a))) =
               call_modes (agent_trace a) @ replicate i (mode a) @ replicate j ACT \<and>
             i + j \<le> n \<and>
             (mode (agent_final (agent_task_loop env n u a)) = PLAN \<longrightarrow> j = 0))) \<and>
   (\<forall>r t3. task_request env u t = (Inr r, t3) \<longrightarrow>
      trace t3 = trace t @ [ProviderCall None ACT]) \<and>
   (\<exists>k. call_modes (trace (task_final (task_loop env n u t))) =
           call_modes (trace t) @ replicate k ACT)"
proof -
  have A: "mode (new_agent dir w) = PLAN" by (simp add: new_agent_def)
  have B: "\<forall>line a1. ascii_console env \<and> agent_input env a = (Inr line, a1) \<longrightarrow>
      choose_mode env a = (None, a1\<lparr>mode := (if strip line = ''2'' then ACT else PLAN)\<rparr>)"
    by (simp add: choose_mode_def)
  have C: "\<forall>r a3. agent_request env u a = (r, a3) \<longrightarrow>
      agent_trace a3 = agent_trace a @ [ProviderCall (Some (working_dir a)) (mode a)]"
    using agent_request_keeps[of env u a] by blast
  have D: "ascii_console env \<longrightarrow>
      (\<exists>i j. call_modes (agent_trace (agent_final (agent_task_loop env n u a))) =
               call_modes (agent_trace a) @ replicate i (mode a) @ replicate j ACT \<and>
             i + j \<le> n \<and>
             (mode (agent_final (agent_task_loop env n u a)) = PLAN \<longrightarrow> j = 0))"
    using agent_loop_modes[of env n u a] by blast
  have E: "\<forall>r t3. task_request env u t = (Inr r, t3) \<longrightarrow>
      trace t3 = trace t @ [ProviderCall None ACT]"
    by (auto simp: task_request_def task_build_context_def ai_client_stream_message_def Let_def
        split: prod.splits sum.splits)
  have F: "\<exists>k. call_modes (trace (task_final (task_loop env n u t))) =
           call_modes (trace t) @ replicate k ACT"
    by (rule task_loop_modes)
  from A B C D E F show ?thesis by blast
qed

text \<open>
  The theorem on a provider that presents a plan: the run starts in PLAN on an empty
  line and in ACT on the line \<^verbatim>\<open>2\<close>; with \<^verbatim>\<open>Switch\<close> typed after the plan the two
  calls of the provider are made in PLAN and then in ACT, without it both in PLAN.
\<close>

theorem provider_receives_loop_mode_witness:
  "ascii_console sample_env \<and>
   mode (snd (choose_mode sample_env (new_agent ''/w'' (switch_world [[], ''Switch''])))) = PLAN \<and>
   mode (snd (choose_mode sample_env (new_agent ''/w'' (switch_world ['' 2 ''])))) = ACT \<and>
   call_modes (agent_trace (agent_final
      (agent_run sample_env 2 ''go'' (new_agent ''/w'' (switch_world [[], ''Switch'']))))) =
     [PLAN, ACT] \<and>
   call_modes (agent_trace (agent_final
      (agent_run sample_env 2 ''go'' (new_agent ''/w'' (switch_world []))))) =
     [PLAN, PLAN] \<and>
   (\<exists>i j. call_modes (agent_trace (agent_final
             (agent_task_loop sample_env 2 ''go'' (sample_agent PLAN (switch_world [''Switch''])))))
           = replicate i PLAN @ replicate j ACT \<and> i + j \<le> 2) \<and>
   call_modes (agent_trace (agent_final
      (agent_task_loop sample_env 2 ''go'' (sample_agent PLAN (switch_world [''Switch''])))))
     = [PLAN, ACT] \<and>
   (\<exists>k. call_modes (trace (task_final
            (task_loop sample_env 2 ''go'' (sample_task (switch_world []))))) = replicate k ACT) \<and>
   call_modes (trace (task_final
      (task_loop sample_env 2 ''go'' (sample_task (switch_world []))))) = [ACT, ACT]"
proof -
  let ?a1 = "new_agent ''/w'' (switch_world [[], ''Switch''])"
  let ?a2 = "new_agent ''/w'' (switch_world ['' 2 ''])"
  let ?p = "sample_agent PLAN (switch_world [''Switch''])"
  let ?t = "sample_task (switch_world [])"
  obtain b1 where i1: "agent_input sample_env ?a1 = (Inr [], b1)"
    by (simp add: agent_input_def sample_env_def new_agent_def switch_world_def ascii_def)
  obtain b2 where i2: "agent_input sample_env ?a2 = (Inr '' 2 '', b2)"
    by (simp add: agent_input_def sample_env_def new_agent_def switch_world_def ascii_def)
  have s1: "strip [] \<noteq> ''2''" and s2: "strip '' 2 '' = ''2''"
    by (simp_all add: strip_def is_space_def)
  note T1 = provider_receives_loop_mode[where dir = "''/w''" and w = "switch_world []"
      and env = sample_env and a = "?a1" and u = "''go''" and n = 2 and t = "?t"]
  note T2 = provider_receives_loop_mode[where dir = "''/w''" and w = "switch_world []"
      and env = sample_env and a = "?a2" and u = "''go''" and n = 2 and t = "?t"]
  note T3 = provider_receives_loop_mode[where dir = "''/w''" and w = "switch_world []"
      and env = sample_env and a = "?p" and u = "''go''" and n = 2 and t = "?t"]
  have A: "mode (snd (choose_mode sample_env ?a1)) = PLAN"
    using T1[THEN conjunct2, THEN conjunct1] sample_console i1 s1 by simp
  have B: "mode (snd (choose_mode sample_env ?a2)) = ACT"
    using T2[THEN conjunct2, THEN conjunct1] sample_console i2 s2 by simp
  have C: "call_modes (agent_trace (agent_final (agent_run sample_env 2 ''go'' ?a1))) = [PLAN, ACT]"
    by (simp add: numeral_2_eq_2 agent_run_def choose_mode_def agent_iteration_def
        agent_request_def agent_build_context_def ai_client_stream_message_def sample_env_def
        new_agent_def switch_world_def tool_call_def process_tool_def check_and_execute_def
        agent_input_def immediate_tools_def strip_def is_space_def ascii_def Let_def
        mode_rejects_def act_only_tools_def lower_Switch lower_Nil)
  have D: "call_modes (agent_trace (agent_final
      (agent_run sample_env 2 ''go'' (new_agent ''/w'' (switch_world []))))) = [PLAN, PLAN]"
    by (simp add: numeral_2_eq_2 agent_run_def choose_mode_def agent_iteration_def
        agent_request_def agent_build_context_def ai_client_stream_message_def sample_env_def
        new_agent_def switch_world_def tool_call_def process_tool_def check_and_execute_def
        agent_input_def immediate_tools_def strip_def is_space_def ascii_def Let_def
        mode_rejects_def act_only_tools_def lower_Switch lower_Nil)
  have e: "call_modes (agent_trace ?p) = []" "mode ?p = PLAN" "call_modes (trace ?t) = []"
    by (simp_all add: sample_agent_def new_agent_def sample_task_def)
  have E: "\<exists>i j. call_modes (agent_trace (agent_final (agent_task_loop sample_env 2 ''go'' ?p)))
           = replicate i PLAN @ replicate j ACT \<and> i + j \<le> 2"
    using T3[THEN conjunct2, THEN conjunct2, THEN conjunct2, THEN conjunct1] sample_console
    unfolding e by (simp only: append_Nil) blast
  have F: "call_modes (agent_trace (agent_final (agent_task_loop sample_env 2 ''go'' ?p)))
     = [PLAN, ACT]"
    by (simp add: numeral_2_eq_2 agent_iteration_def
        agent_request_def agent_build_context_def ai_client_stream_message_def sample_env_def
        sample_agent_def new_agent_def switch_world_def tool_call_def process_tool_def
        check_and_execute_def agent_input_def immediate_tools_def strip_def is_space_def
        ascii_def Let_def mode_rejects_def act_only_tools_def lower_Switch lower_Nil)
  have G: "\<exists>k. call_modes (trace (task_final (task_loop sample_env 2 ''go'' ?t))) = replicate k ACT"
    using T3[THEN conjunct2, THEN conjunct2, THEN conjunct2, THEN conjunct2, THEN conjunct2]
    unfolding e by (simp only: append_Nil)
  have H: "call_modes (trace (task_final (task_loop sample_env 2 ''go'' ?t))) = [ACT, ACT]"
    by (simp add: numeral_2_eq_2 task_iteration_def task_request_def task_build_context_def
        ai_client_stream_message_def sample_env_def sample_task_def switch_world_def
        send_to_ui_def execute_tool_def task_tools_def tool_call_def sample_tool_def Let_def)
  from sample_console A B C D E F G H show ?thesis by blast
qed

text \<open>
  Claim C6 as it was stated fails in both loops. The loop behind the websocket, started
  with nothing that overrides a mode, calls the provider in ACT, not in PLAN. The
  console agent, started in PLAN, calls the provider in PLAN and, after the user has
  typed \<^verbatim>\<open>Switch\<close> at the plan, in ACT: the starting mode is not the one supplied to
  every call.
\<close>

theorem task_mode_is_act_counterexample:
  "call_modes (trace (task_final
      (task_start sample_env 1 ''go'' (sample_task (switch_world []))))) = [ACT] \<and>
   mode (snd (choose_mode sample_env (new_agent ''/w'' (switch_world [[], ''Switch''])))) = PLAN \<and>
   call_modes (agent_trace (agent_final
      (agent_run sample_env 2 ''go'' (new_agent ''/w'' (switch_world [[], ''Switch'']))))) =
     [PLAN, ACT]"
  by (simp add: numeral_2_eq_2 agent_run_def choose_mode_def agent_iteration_def
      agent_request_def agent_build_context_def ai_client_stream_message_def sample_env_def
      new_agent_def switch_world_def tool_call_def process_tool_def check_and_execute_def
      agent_input_def immediate_tools_def strip_def is_space_def ascii_def Let_def
      mode_rejects_def act_only_tools_def lower_Switch lower_Nil task_start_def
      task_iteration_def task_request_def task_build_context_def sample_task_def send_to_ui_def
      execute_tool_def task_tools_def)

end
